theory Spec2Isabelle
  imports Complex_Main "HOL-Library.Product_Lexorder" "HOL-Library.AList"
    "HOL-Library.Code_Target_Nat"
begin

section \<open>Strings\<close>

text \<open>
  A Python \<open>str\<close> is a sequence of code points; it is modelled as a \<open>string\<close> with one
  \<open>char\<close> per code point. The ASCII range denotes itself and the euro sign (U+20AC), the
  only character beyond ASCII that the program names, is the character \<open>euro\<close>. Character
  classes (\<open>isspace\<close>, \<open>isdigit\<close>) and case mapping (\<open>lower\<close>, \<open>upper\<close>) are those of
  the ASCII range; every other character is neither space nor digit and has no case.
\<close>

abbreviation NL :: char where "NL \<equiv> CHR 0x0A"

abbreviation euro :: char where "euro \<equiv> CHR 0x80"

definition is_space :: "char \<Rightarrow> bool" where
  "is_space c = (c \<in> set [CHR 0x09, CHR 0x0A, CHR 0x0B, CHR 0x0C, CHR 0x0D,
                            CHR 0x1C, CHR 0x1D, CHR 0x1E, CHR 0x1F, CHR 0x20])"

definition is_digit :: "char \<Rightarrow> bool" where
  "is_digit c = (c \<in> set ''0123456789'')"

text \<open>\<open>s.isdigit()\<close>: every character is a digit and there is at least one.\<close>

definition isdigit :: "string \<Rightarrow> bool" where
  "isdigit s = (s \<noteq> [] \<and> list_all is_digit s)"

definition lower_char :: "char \<Rightarrow> char" where
  "lower_char c = (let n = (of_char c :: nat) in
                   if 65 \<le> n \<and> n \<le> 90 then char_of (n + 32) else c)"

definition upper_char :: "char \<Rightarrow> char" where
  "upper_char c = (let n = (of_char c :: nat) in
                   if 97 \<le> n \<and> n \<le> 122 then char_of (n - 32) else c)"

definition lower :: "string \<Rightarrow> string" where
  "lower s = map lower_char s"

definition upper :: "string \<Rightarrow> string" where
  "upper s = map upper_char s"

text \<open>\<open>s.strip()\<close>, \<open>s.strip(cs)\<close> and \<open>s.rstrip(cs)\<close>.\<close>

definition strip :: "string \<Rightarrow> string" where
  "strip s = rev (dropWhile is_space (rev (dropWhile is_space s)))"

definition strip_chars :: "string \<Rightarrow> string \<Rightarrow> string" where
  "strip_chars cs s =
     rev (dropWhile (\<lambda>c. c \<in> set cs) (rev (dropWhile (\<lambda>c. c \<in> set cs) s)))"

definition rstrip_chars :: "string \<Rightarrow> string \<Rightarrow> string" where
  "rstrip_chars cs s = rev (dropWhile (\<lambda>c. c \<in> set cs) (rev s))"

definition startswith :: "string \<Rightarrow> string \<Rightarrow> bool" where
  "startswith s p = (take (length p) s = p)"

text \<open>\<open>g in s\<close> on strings: \<open>g\<close> occurs in \<open>s\<close> as a contiguous substring.\<close>

fun contains :: "string \<Rightarrow> string \<Rightarrow> bool" where
  "contains [] g = (g = [])"
| "contains (c # s) g = (startswith (c # s) g \<or> contains s g)"

text \<open>\<open>s.split(sep)\<close> for a one-character separator: empty fields are kept.\<close>

function split_on :: "char \<Rightarrow> string \<Rightarrow> string list" where
  "split_on sep s =
     takeWhile (\<lambda>c. c \<noteq> sep) s #
       (case dropWhile (\<lambda>c. c \<noteq> sep) s of [] \<Rightarrow> [] | _ # r \<Rightarrow> split_on sep r)"
  by pat_completeness auto
termination
proof (relation "measure (\<lambda>(sep, s). length s)")
  show "wf (measure (\<lambda>(sep, s). length s))" by simp
next
  fix sep :: char and s x21 r
  assume "dropWhile (\<lambda>c. c \<noteq> sep) s = x21 # r"
  then have "length (x21 # r) \<le> length s"
    by (metis length_dropWhile_le)
  then show "((sep, r), (sep, s)) \<in> measure (\<lambda>(sep, s). length s)" by simp
qed

text \<open>\<open>s.split()\<close>: fields are separated by runs of whitespace, no empty field.\<close>

function split_ws :: "string \<Rightarrow> string list" where
  "split_ws s =
     (case dropWhile is_space s of
        [] \<Rightarrow> []
      | c # r \<Rightarrow> (c # takeWhile (\<lambda>x. \<not> is_space x) r) #
                   split_ws (dropWhile (\<lambda>x. \<not> is_space x) r))"
  by pat_completeness auto
termination
proof (relation "measure length")
  show "wf (measure length)" by simp
next
  fix s :: string and c r
  assume a: "dropWhile is_space s = c # r"
  have "length (dropWhile (\<lambda>x. \<not> is_space x) r) \<le> length r"
    by (rule length_dropWhile_le)
  moreover have "length (c # r) \<le> length s"
    using a by (metis length_dropWhile_le)
  ultimately show "(dropWhile (\<lambda>x. \<not> is_space x) r, s) \<in> measure length" by simp
qed

declare split_on.simps [simp del] split_ws.simps [simp del]

text \<open>\<open>s[1:-2]\<close>: the string without its first and its last two characters.\<close>

definition slice_1_m2 :: "string \<Rightarrow> string" where
  "slice_1_m2 s = drop 1 (take (length s - 2) s)"

text \<open>\<open>','.join(ks)\<close>, to write down the shape of a declaration line.\<close>

fun join_commas :: "string list \<Rightarrow> string" where
  "join_commas [] = []"
| "join_commas [k] = k"
| "join_commas (k # k' # ks) = k @ '','' @ join_commas (k' # ks)"

section \<open>Exceptions and generators\<close>

datatype error =
    RuntimeError        \<comment> \<open>\<open>StopIteration\<close> raised inside a generator body (PEP 479)\<close>
  | ValueError
  | InvalidOperation    \<comment> \<open>\<open>decimal.InvalidOperation\<close>\<close>
  | IndexError
  | KeyError
  | TypeError string
  | Overflow            \<comment> \<open>\<open>decimal.Overflow\<close>\<close>

text \<open>
  The run of a generator: the values it yields, ended by its return (\<open>Stop\<close>, seen by the
  consumer as \<open>StopIteration\<close>) or by an exception.
\<close>

datatype 'a gen = Stop | Raise error | Yield 'a "'a gen"

section \<open>The line iterator\<close>

text \<open>
  The options of a run (\<open>self.args\<close>). An option that is absent, or present with the
  value \<open>None\<close>, is \<open>None\<close>.
\<close>

record args =
  arg_s :: "string option"
  arg_e :: "string option"
  arg_p :: bool
  arg_x :: bool
  arg_g :: "string option"
  arg_period :: "string option"

text \<open>
  The variable \<open>periode\<close> of \<open>MovesFile.iterator\<close> is \<open>None\<close>, the marker text
  \<open>'-- ' + period\<close>, or \<open>True\<close> once the marker has been seen.
\<close>

datatype periode = PNone | PMarker string | PTrue

fun iterator_loop :: "periode \<Rightarrow> nat \<Rightarrow> string list \<Rightarrow> (nat \<times> string) gen" where
  "iterator_loop periode i [] = Stop"
| "iterator_loop periode i (line # fd) =
     (case periode of
        PMarker p \<Rightarrow>
          if startswith line p then iterator_loop PTrue (i + 1) fd
          else iterator_loop (PMarker p) (i + 1) fd
      | _ \<Rightarrow>
          if periode = PTrue \<and> startswith line ''!'' then Stop
          else (case line of
                  [] \<Rightarrow> Raise IndexError
                | c # _ \<Rightarrow>
                    if c \<in> set ''$!#-'' then iterator_loop periode (i + 1) fd
                    else Yield (i + 1, line) (iterator_loop periode (i + 1) fd)))"

definition iterator :: "args \<Rightarrow> string list \<Rightarrow> (nat \<times> string) gen" where
  "iterator a fd =
     iterator_loop
       (case arg_period a of
          None \<Rightarrow> PNone
        | Some p \<Rightarrow> if p \<noteq> [] then PMarker (''-- '' @ p) else PNone)
       0 fd"

section \<open>Dates\<close>

text \<open>
  A \<open>datetime\<close> is (year, month, day, microsecond of the day); Python orders naive
  datetimes chronologically, which is the lexicographic order of these tuples.
\<close>

type_synonym datetime = "nat \<times> nat \<times> nat \<times> nat"

definition digit_val :: "char \<Rightarrow> nat" where
  "digit_val c = of_char c - 48"

definition digit_char :: "nat \<Rightarrow> char" where
  "digit_char n = char_of (48 + n)"

text \<open>\<open>int(s)\<close> on a string of digits, and \<open>str(n)\<close> for \<open>n \<ge> 0\<close>.\<close>

definition int_of_digits :: "string \<Rightarrow> nat" where
  "int_of_digits s = foldl (\<lambda>a c. 10 * a + digit_val c) 0 s"

fun str_nat :: "nat \<Rightarrow> string" where
  "str_nat n = (if n < 10 then [digit_char n]
                else str_nat (n div 10) @ [digit_char (n mod 10)])"

declare str_nat.simps [simp del]

definition is_leap :: "nat \<Rightarrow> bool" where
  "is_leap y = (y mod 4 = 0 \<and> (y mod 100 \<noteq> 0 \<or> y mod 400 = 0))"

definition days_in_month :: "nat \<Rightarrow> nat \<Rightarrow> nat" where
  "days_in_month y m =
     (if m = 2 then (if is_leap y then 29 else 28)
      else if m \<in> set [4, 6, 9, 11] then 30 else 31)"

text \<open>
  \<open>strptime\<close> turns the format \<open>'%Y/%m/%d'\<close> into the regular expression
  \<open>(\d\d\d\d)/(1[0-2]|0[1-9]|[1-9])/(3[0-1]|[1-2]\d|0[1-9]|[1-9]| [1-9])\<close>,
  matches it at the start of the text and raises \<open>ValueError\<close> when the match fails, when
  text remains after it, or when the three numbers are not a date. \<open>one_of cs s\<close> is: the
  first character of \<open>s\<close> exists and is in \<open>cs\<close>.
\<close>

definition one_of :: "string \<Rightarrow> string \<Rightarrow> bool" where
  "one_of cs s = (case s of [] \<Rightarrow> False | c # _ \<Rightarrow> c \<in> set cs)"

definition match_m :: "string \<Rightarrow> (nat \<times> string) option" where
  "match_m s =
     (if one_of ''1'' s \<and> one_of ''012'' (drop 1 s) then Some (int_of_digits (take 2 s), drop 2 s)
      else if one_of ''0'' s \<and> one_of ''123456789'' (drop 1 s)
        then Some (int_of_digits (take 2 s), drop 2 s)
      else if one_of ''123456789'' s then Some (int_of_digits (take 1 s), drop 1 s)
      else None)"

definition match_d :: "string \<Rightarrow> (nat \<times> string) option" where
  "match_d s =
     (if one_of ''3'' s \<and> one_of ''01'' (drop 1 s) then Some (int_of_digits (take 2 s), drop 2 s)
      else if one_of ''12'' s \<and> one_of ''0123456789'' (drop 1 s)
        then Some (int_of_digits (take 2 s), drop 2 s)
      else if one_of ''0'' s \<and> one_of ''123456789'' (drop 1 s)
        then Some (int_of_digits (take 2 s), drop 2 s)
      else if one_of ''123456789'' s then Some (int_of_digits (take 1 s), drop 1 s)
      else if one_of '' '' s \<and> one_of ''123456789'' (drop 1 s)
        then Some (int_of_digits (take 1 (drop 1 s)), drop 2 s)
      else None)"

definition strptime :: "string \<Rightarrow> error + datetime" where
  "strptime s =
     (if \<not> (length (take 4 s) = 4 \<and> list_all is_digit (take 4 s)) then Inl ValueError
      else if \<not> one_of ''/'' (drop 4 s) then Inl ValueError
      else case match_m (drop 5 s) of
        None \<Rightarrow> Inl ValueError
      | Some (m, s2) \<Rightarrow>
          if \<not> one_of ''/'' s2 then Inl ValueError
          else case match_d (drop 1 s2) of
            None \<Rightarrow> Inl ValueError
          | Some (d, s4) \<Rightarrow>
              let y = int_of_digits (take 4 s) in
              if s4 \<noteq> [] then Inl ValueError
              else if y < 1 \<or> days_in_month y m < d then Inl ValueError
              else Inr (y, m, d, 0))"

text \<open>
  \<open>strftime('%Y/%m/%d')\<close>, which the C library computes: the year as it is, without
  padding, month and day on two digits.
\<close>

definition zfill :: "nat \<Rightarrow> string \<Rightarrow> string" where
  "zfill n s = replicate (n - length s) (CHR ''0'') @ s"

definition strftime :: "datetime \<Rightarrow> string" where
  "strftime dt =
     (case dt of (y, m, d, _) \<Rightarrow>
        str_nat y @ ''/'' @ zfill 2 (str_nat m) @ ''/'' @ zfill 2 (str_nat d))"

section \<open>Decimal numbers\<close>

text \<open>
  A \<open>Decimal\<close> is a finite number with a sign, a coefficient and an exponent (\<open>_sign\<close>,
  \<open>_int\<close>, \<open>_exp\<close>), or an infinity with its sign, or a NaN with its sign, whether it is
  signaling, and its payload (a NaN without payload has the payload 0). The value of a
  finite decimal is its signed coefficient times ten to the exponent; \<open>dec_val\<close> is used
  on finite decimals only.
\<close>

datatype decimal =
    Finite (dsign: bool) (dint: nat) (dexp: int)
  | Infinity bool
  | NaN bool bool nat

definition dec_val :: "decimal \<Rightarrow> rat" where
  "dec_val d =
     (case d of
        Finite s c e \<Rightarrow>
          (if s then - 1 else 1) *
          (if 0 \<le> e then of_nat c * 10 ^ nat e else of_nat c / 10 ^ nat (- e))
      | _ \<Rightarrow> 0)"

text \<open>
  \<open>Decimal(value)\<close> strips the text, removes underscores and matches
  \<open>[-+]?((?=\d|\.\d)\d*(\.\d*)?(E[-+]?\d+)?|Inf(inity)?|s?NaN\d*)\Z\<close> ignoring case. The
  constructor is exact: it does not round to the precision of the context.
\<close>

definition exponent :: "string \<Rightarrow> int option" where
  "exponent s =
     (case s of
        [] \<Rightarrow> Some 0
      | c # r \<Rightarrow>
          if c = CHR ''E'' \<or> c = CHR ''e'' then
            (let neg = one_of ''-'' r;
                 ds = (if one_of ''-+'' r then drop 1 r else r)
             in if isdigit ds
                then Some (if neg then - int (int_of_digits ds) else int (int_of_digits ds))
                else None)
          else None)"

definition special :: "bool \<Rightarrow> string \<Rightarrow> decimal option" where
  "special sign s =
     (let t = lower s; signal = one_of ''s'' t; u = (if signal then drop 1 t else t)
      in if t = ''inf'' \<or> t = ''infinity'' then Some (Infinity sign)
         else if take 3 u = ''nan'' \<and> list_all is_digit (drop 3 u)
           then Some (NaN sign signal (int_of_digits (drop 3 u)))
         else None)"

definition Decimal :: "string \<Rightarrow> error + decimal" where
  "Decimal v =
     (let s = filter (\<lambda>c. c \<noteq> CHR ''_'') (strip v);
          sign = one_of ''-'' s;
          s1 = (if one_of ''-+'' s then drop 1 s else s);
          intpart = takeWhile is_digit s1;
          s2 = dropWhile is_digit s1;
          fracpart = (if one_of ''.'' s2 then takeWhile is_digit (drop 1 s2) else []);
          s3 = (if one_of ''.'' s2 then dropWhile is_digit (drop 1 s2) else s2)
      in if intpart = [] \<and> fracpart = []
         then (case special sign s1 of Some d \<Rightarrow> Inr d | None \<Rightarrow> Inl InvalidOperation)
         else case exponent s3 of
           None \<Rightarrow> Inl InvalidOperation
         | Some e \<Rightarrow>
             Inr (Finite sign (int_of_digits (intpart @ fracpart)) (e - int (length fracpart))))"

text \<open>\<open>str(d)\<close>: the scientific string of a finite decimal, and the names of the others.\<close>

definition str_exp :: "int \<Rightarrow> string" where
  "str_exp n = (if n < 0 then ''-'' else ''+'') @ str_nat (nat \<bar>n\<bar>)"

definition str_decimal :: "decimal \<Rightarrow> string" where
  "str_decimal d =
     (case d of
        Infinity s \<Rightarrow> (if s then ''-'' else []) @ ''Infinity''
      | NaN s signal p \<Rightarrow>
          (if s then ''-'' else []) @ (if signal then ''sNaN'' else ''NaN'') @
          (if p = 0 then [] else str_nat p)
      | Finite s c e \<Rightarrow>
         (let digits = str_nat c;
              leftdigits = e + int (length digits);
              dotplace = (if e \<le> 0 \<and> - 6 < leftdigits then leftdigits else 1);
              intpart =
                (if dotplace \<le> 0 then ''0''
                 else if int (length digits) \<le> dotplace
                   then digits @ replicate (nat dotplace - length digits) (CHR ''0'')
                 else take (nat dotplace) digits);
              fracpart =
                (if dotplace \<le> 0 then ''.'' @ replicate (nat (- dotplace)) (CHR ''0'') @ digits
                 else if int (length digits) \<le> dotplace then []
                 else ''.'' @ drop (nat dotplace) digits);
              exp = (if leftdigits = dotplace then [] else ''E'' @ str_exp (leftdigits - dotplace))
          in (if s then ''-'' else []) @ intpart @ fracpart @ exp))"

text \<open>
  Arithmetic is done in the default context of the module \<open>decimal\<close>: precision 28,
  rounding \<open>ROUND_HALF_EVEN\<close>, \<open>Emin = -999999\<close>, \<open>Emax = 999999\<close>, and the traps
  \<open>InvalidOperation\<close>, \<open>DivisionByZero\<close> and \<open>Overflow\<close>, which raise. From these,
  \<open>Etiny = Emin - prec + 1\<close> and \<open>Etop = Emax - prec + 1\<close>.
\<close>

definition prec :: nat where "prec = 28"
definition Emax :: int where "Emax = 999999"
definition Etiny :: int where "Etiny = - 1000026"
definition Etop :: int where "Etop = 999972"

text \<open>
  \<open>Decimal._fix\<close> on a finite triple: the result of an operation is rounded to the
  precision and its exponent brought into range. A zero keeps its sign and gets an
  exponent between \<open>Etiny\<close> and \<open>Emax\<close>. Otherwise \<open>exp_min\<close> is the least exponent the
  result may have; a coefficient with digits below it is rounded to it, half to even, and
  a carry to one digit too many drops the last digit. A result above \<open>Emax\<close> raises
  \<open>Overflow\<close>.
\<close>

definition dec_fix :: "bool \<Rightarrow> nat \<Rightarrow> int \<Rightarrow> error + decimal" where
  "dec_fix s c e =
     (if c = 0 then Inr (Finite s 0 (min (max e Etiny) Emax))
      else
        let exp_min0 = int (length (str_nat c)) + e - int prec in
        if Etop < exp_min0 then Inl Overflow
        else
          let exp_min = max exp_min0 Etiny in
          if e < exp_min then
            (let p = 10 ^ nat (exp_min - e);
                 q = c div p;
                 r = c mod p;
                 coeff = (if p < 2 * r \<or> (2 * r = p \<and> odd q) then q + 1 else q)
             in if prec < length (str_nat coeff) then
                  (if Etop < exp_min + 1 then Inl Overflow
                   else Inr (Finite s (coeff div 10) (exp_min + 1)))
                else Inr (Finite s coeff exp_min))
          else Inr (Finite s c e))"

text \<open>
  \<open>Decimal._check_nans\<close>: a signaling NaN raises \<open>InvalidOperation\<close>, a quiet NaN is the
  result, the first operand before the second, with its payload cut to the precision.
\<close>

definition check_nans :: "decimal \<Rightarrow> decimal \<Rightarrow> (error + decimal) option" where
  "check_nans a b =
     (case (a, b) of
        (NaN s True p, _) \<Rightarrow> Some (Inl InvalidOperation)
      | (_, NaN s True p) \<Rightarrow> Some (Inl InvalidOperation)
      | (NaN s False p, _) \<Rightarrow> Some (Inr (NaN s False (p mod 10 ^ prec)))
      | (_, NaN s False p) \<Rightarrow> Some (Inr (NaN s False (p mod 10 ^ prec)))
      | _ \<Rightarrow> None)"

definition with_sign :: "bool \<Rightarrow> nat \<Rightarrow> int" where
  "with_sign s c = (if s then - int c else int c)"

text \<open>
  \<open>a + b\<close>. Of two finite numbers it is the exact sum, written with the smaller of the
  two exponents, then fixed; the sum of two zeros is negative only when both are, and a
  sum that cancels is a positive zero. Infinities of opposite signs raise
  \<open>InvalidOperation\<close>. The last case is not reached, since \<open>check_nans\<close> answers every
  NaN.
\<close>

definition dec_add :: "decimal \<Rightarrow> decimal \<Rightarrow> error + decimal" where
  "dec_add a b =
     (case check_nans a b of
        Some r \<Rightarrow> r
      | None \<Rightarrow>
          (case (a, b) of
             (Infinity sa, Infinity sb) \<Rightarrow>
               if sa \<noteq> sb then Inl InvalidOperation else Inr (Infinity sa)
           | (Infinity sa, _) \<Rightarrow> Inr (Infinity sa)
           | (_, Infinity sb) \<Rightarrow> Inr (Infinity sb)
           | (Finite sa ca ea, Finite sb cb eb) \<Rightarrow>
               (let e = min ea eb;
                    n = with_sign sa (ca * 10 ^ nat (ea - e)) + with_sign sb (cb * 10 ^ nat (eb - e))
                in dec_fix (if ca = 0 \<and> cb = 0 then sa \<and> sb else n < 0) (nat \<bar>n\<bar>) e)
           | _ \<Rightarrow> Inl InvalidOperation))"

text \<open>\<open>a - b\<close> is \<open>a + b.copy_negate()\<close>, after the check of the NaNs.\<close>

definition copy_negate :: "decimal \<Rightarrow> decimal" where
  "copy_negate d =
     (case d of
        Finite s c e \<Rightarrow> Finite (\<not> s) c e
      | Infinity s \<Rightarrow> Infinity (\<not> s)
      | NaN s signal p \<Rightarrow> NaN (\<not> s) signal p)"

definition dec_sub :: "decimal \<Rightarrow> decimal \<Rightarrow> error + decimal" where
  "dec_sub a b =
     (case check_nans a b of
        Some r \<Rightarrow> r
      | None \<Rightarrow> dec_add a (copy_negate b))"

text \<open>\<open>d * k\<close> for an integer \<open>k\<close>, which Python converts to the decimal of that integer.\<close>

definition dec_mul_int :: "decimal \<Rightarrow> int \<Rightarrow> error + decimal" where
  "dec_mul_int d k =
     (case d of
        NaN s signal p \<Rightarrow>
          if signal then Inl InvalidOperation else Inr (NaN s False (p mod 10 ^ prec))
      | Infinity s \<Rightarrow> if k = 0 then Inl InvalidOperation else Inr (Infinity (s \<noteq> (k < 0)))
      | Finite s c e \<Rightarrow> dec_fix (s \<noteq> (k < 0)) (c * nat \<bar>k\<bar>) e)"

text \<open>\<open>d > 0\<close>: an ordering comparison with a NaN raises \<open>InvalidOperation\<close>.\<close>

definition dec_gt0 :: "decimal \<Rightarrow> error + bool" where
  "dec_gt0 d =
     (case d of
        NaN s signal p \<Rightarrow> Inl InvalidOperation
      | Infinity s \<Rightarrow> Inr (\<not> s)
      | Finite s c e \<Rightarrow> Inr (\<not> s \<and> 0 < c))"

text \<open>The exceptions that the arithmetic above raises.\<close>

definition decimal_error :: "error \<Rightarrow> bool" where
  "decimal_error x = (x = InvalidOperation \<or> x = Overflow)"

section \<open>Move\<close>

record move =
  index :: nat
  line_number :: nat
  date :: datetime
  amount :: decimal
  category :: string
  status :: string
  kind :: string
  description :: "string option"
  comment :: string

definition Move_init :: "nat \<Rightarrow> nat \<Rightarrow> string \<Rightarrow> error + move" where
  "Move_init m i line =
     (case split_on (CHR '' '') (strip line) of
        [date_str, amount_str, kind', category', status'] \<Rightarrow>
          (case strptime date_str of
             Inl e \<Rightarrow> Inl e
           | Inr date' \<Rightarrow>
               (case Decimal (rstrip_chars [euro] amount_str) of
                  Inl e \<Rightarrow> Inl e
                | Inr amount' \<Rightarrow>
                    Inr \<lparr>index = m, line_number = i, date = date', amount = amount',
                         category = category', status = status', kind = kind',
                         description = None, comment = []\<rparr>))
      | _ \<Rightarrow> Inl ValueError)"

definition add :: "move \<Rightarrow> string \<Rightarrow> move" where
  "add mv line =
     (if strip line \<noteq> [] then
        (case description mv of
           None \<Rightarrow> mv\<lparr>description := Some (strip line)\<rparr>
         | Some _ \<Rightarrow> mv\<lparr>comment := comment mv @ strip_chars '' '' line\<rparr>)
      else mv)"

text \<open>
  \<open>Move.__str__\<close>. The template is rendered without its last newline (Jinja2 drops one
  trailing newline of a template) and \<open>None\<close> is rendered as the text \<open>None\<close>.
\<close>

definition render_template :: "move \<Rightarrow> string" where
  "render_template mv =
     [NL] @ strftime (date mv) @ '' '' @ str_decimal (amount mv) @ [euro] @ '' '' @ kind mv
       @ '' '' @ category mv @ '' '' @ status mv
       @ [NL] @ ''    '' @ (case description mv of None \<Rightarrow> ''None'' | Some d \<Rightarrow> d)
       @ [NL] @ ''    '' @ comment mv"

definition str_move :: "move \<Rightarrow> string" where
  "str_move mv = strip (render_template mv) @ [NL, NL]"

section \<open>MovesFile: filtering and parsing\<close>

text \<open>
  The part of a \<open>MovesFile\<close> that parsing reads: the options and the two dates. The two
  dictionaries \<open>accounts\<close> and \<open>kinds\<close>, which parsing writes, are a \<open>registry\<close>: association
  lists in insertion order, as Python dictionaries are.
\<close>

record config =
  args :: args
  start_date :: datetime
  end_date :: datetime

record registry =
  accounts :: "(string \<times> decimal) list"
  kinds :: "(string \<times> string) list"

text \<open>\<open>MovesFile.filter\<close>: \<open>True\<close>, or \<open>None\<close> (here \<open>False\<close>).\<close>

definition filter_move :: "config \<Rightarrow> move \<Rightarrow> bool" where
  "filter_move self mv =
     (let g = (case arg_g (args self) of None \<Rightarrow> [] | Some g \<Rightarrow> g) in
      if g \<noteq> [] \<and> \<not> contains (lower (str_move mv)) g then False
      else if arg_p (args self) \<and> \<not> upper (status mv) = ''P'' then False
      else if arg_x (args self) \<and> \<not> upper (status mv) = ''X'' then False
      else start_date self \<le> date mv \<and> date mv \<le> end_date self)"

text \<open>The branch of \<open>MovesFile.parse\<close> for a line that starts with \<open>'++ '\<close>.\<close>

definition account_declaration :: "registry \<Rightarrow> string \<Rightarrow> error + registry" where
  "account_declaration reg line =
     (case tl (split_ws line) of
        [account, kinds', amount'] \<Rightarrow>
          (case Decimal amount' of
             Inl e \<Rightarrow> Inl e
           | Inr d \<Rightarrow>
               Inr \<lparr>accounts = AList.update account d (accounts reg),
                    kinds = foldl (\<lambda>ks kind'. AList.update kind' account ks) (kinds reg)
                              (split_on (CHR '','') (slice_1_m2 kinds'))\<rparr>)
      | _ \<Rightarrow> Inl ValueError)"

text \<open>
  The inner loop \<open>while not line[:4].isdigit()\<close>. It ends at a line that starts a
  transaction, or by \<open>break\<close> when the iterator is exhausted; either way the outer loop
  goes on with the current line and what is left of the iterator. An exception of the
  iterator other than \<open>StopIteration\<close> leaves \<open>parse\<close>.
\<close>

fun collect ::
  "move \<Rightarrow> nat \<times> string \<Rightarrow> (nat \<times> string) gen \<Rightarrow>
   error + (move \<times> (nat \<times> string) \<times> (nat \<times> string) gen)" where
  "collect mv (i, line) fd =
     (if isdigit (take 4 line) then Inr (mv, (i, line), fd)
      else (case fd of
              Stop \<Rightarrow> Inr (add mv line, (i, line), Stop)
            | Raise e \<Rightarrow> Inl e
            | Yield x fd' \<Rightarrow> collect (add mv line) x fd'))"

lemma collect_size:
  "collect mv x fd = Inr (mv', x', fd') \<Longrightarrow> size fd' \<le> size fd"
proof (induction mv x fd rule: collect.induct)
  case (1 mv i line fd)
  then show ?case
    by (cases fd) (auto split: if_splits simp del: collect.simps simp add: collect.simps [of mv i line])
qed

text \<open>
  The loop \<open>while True\<close> of \<open>MovesFile.parse\<close>, entered with the current line and the rest
  of the iterator. The result is the run of the generator \<open>parse\<close> and the registry it
  leaves.
\<close>

function parse_loop ::
  "config \<Rightarrow> registry \<Rightarrow> nat \<Rightarrow> nat \<times> string \<Rightarrow> (nat \<times> string) gen \<Rightarrow> move gen \<times> registry"
  where
  "parse_loop self reg m (i, line) fd =
     (if startswith line ''++ '' then
        (case account_declaration reg line of
           Inl e \<Rightarrow> (Raise e, reg)
         | Inr reg' \<Rightarrow>
             (case fd of
                Stop \<Rightarrow> (Stop, reg')
              | Raise e \<Rightarrow> (Raise e, reg')
              | Yield x fd' \<Rightarrow> parse_loop self reg' m x fd'))
      else if isdigit (take 4 line) then
        (case Move_init (m + 1) i line of
           Inl e \<Rightarrow> (Raise e, reg)
         | Inr mv \<Rightarrow>
             (case fd of
                Stop \<Rightarrow> (Stop, reg)
              | Raise e \<Rightarrow> (Raise e, reg)
              | Yield x fd' \<Rightarrow>
                  (case collect mv x fd' of
                     Inl e \<Rightarrow> (Raise e, reg)
                   | Inr (mv', x', fd'') \<Rightarrow>
                       (case parse_loop self reg (m + 1) x' fd'' of
                          (g, reg') \<Rightarrow>
                            (if filter_move self mv' then Yield mv' g else g, reg')))))
      else
        (case fd of
           Stop \<Rightarrow> (Stop, reg)
         | Raise e \<Rightarrow> (Raise e, reg)
         | Yield x fd' \<Rightarrow> parse_loop self reg m x fd'))"
  by pat_completeness auto
termination
  by (relation "measure (\<lambda>(self, reg, m, x, fd). size fd)")
     (auto dest: collect_size)

declare parse_loop.simps [simp del]

text \<open>
  \<open>MovesFile.parse\<close>. The first \<open>next(fd)\<close> is outside any \<open>try\<close>: when the iterator yields
  nothing, \<open>StopIteration\<close> is raised inside the generator \<open>parse\<close>, which Python (from
  version 3.7 on, PEP 479) turns into \<open>RuntimeError\<close>.
\<close>

definition parse :: "config \<Rightarrow> registry \<Rightarrow> string list \<Rightarrow> move gen \<times> registry" where
  "parse self reg fd =
     (case iterator (args self) fd of
        Stop \<Rightarrow> (Raise RuntimeError, reg)
      | Raise e \<Rightarrow> (Raise e, reg)
      | Yield x fd' \<Rightarrow> parse_loop self reg 0 x fd')"

text \<open>What a generator yields, whatever ends it; and \<open>list(g)\<close>, which an exception aborts.\<close>

fun yielded :: "'a gen \<Rightarrow> 'a list" where
  "yielded Stop = []"
| "yielded (Raise e) = []"
| "yielded (Yield x g) = x # yielded g"

fun list_of_gen :: "'a gen \<Rightarrow> error + 'a list" where
  "list_of_gen Stop = Inr []"
| "list_of_gen (Raise e) = Inl e"
| "list_of_gen (Yield x g) = (case list_of_gen g of Inl e \<Rightarrow> Inl e | Inr xs \<Rightarrow> Inr (x # xs))"

section \<open>Balances and aggregation\<close>

text \<open>
  A \<open>Balance\<close> is a dictionary from category to amount with the flag \<open>reverse\<close>, from
  which \<open>coef\<close> is computed (\<open>reverse and 1 or -1\<close>).
\<close>

record balance =
  reverse :: bool
  entries :: "(string \<times> decimal) list"

definition Balance :: "bool \<Rightarrow> balance" where
  "Balance r = \<lparr>reverse = r, entries = []\<rparr>"

definition coef :: "balance \<Rightarrow> int" where
  "coef b = (if reverse b then 1 else - 1)"

text \<open>
  \<open>sum(values)\<close> starts from the integer 0 and adds the values from left to right:
  \<open>0 + v\<close> is computed by \<open>v.__radd__(0)\<close>, which is \<open>v + Decimal(0)\<close>, and each later
  step is \<open>acc + v\<close>. The sum of no value is the integer 0, which is written here as the
  decimal zero.
\<close>

fun sum_from :: "decimal \<Rightarrow> decimal list \<Rightarrow> error + decimal" where
  "sum_from acc [] = Inr acc"
| "sum_from acc (v # vs) =
     (case dec_add acc v of
        Inl e \<Rightarrow> Inl e
      | Inr acc' \<Rightarrow> sum_from acc' vs)"

definition py_sum :: "decimal list \<Rightarrow> error + decimal" where
  "py_sum vs =
     (case vs of
        [] \<Rightarrow> Inr (Finite False 0 0)
      | v # vs' \<Rightarrow>
          (case dec_add v (Finite False 0 0) of
             Inl e \<Rightarrow> Inl e
           | Inr acc \<Rightarrow> sum_from acc vs'))"

text \<open>
  \<open>Balance.sum\<close>: \<open>sum(self.values()) * self.coef\<close>. For an empty balance this is a
  product of integers, 0.
\<close>

definition Balance_sum :: "balance \<Rightarrow> error + decimal" where
  "Balance_sum b =
     (if entries b = [] then Inr (Finite False 0 0)
      else case py_sum (map snd (entries b)) of
        Inl e \<Rightarrow> Inl e
      | Inr s \<Rightarrow> dec_mul_int s (coef b))"

text \<open>
  The state of the loop \<open>for move in self.moves\<close> of \<open>MovesFile.__init__\<close>:
  \<open>self.balances['in']\<close>, \<open>self.balances['out']\<close> and \<open>self.accounts\<close>.
\<close>

record totals =
  balances_in :: balance
  balances_out :: balance
  accounts_now :: "(string \<times> decimal) list"

text \<open>\<open>balance[category] += amount\<close>, or \<open>balance[category] = amount\<close> for a new category.\<close>

definition bump :: "string \<Rightarrow> decimal \<Rightarrow> balance \<Rightarrow> error + balance" where
  "bump c a b =
     (case map_of (entries b) c of
        Some v \<Rightarrow>
          (case dec_add v a of
             Inl e \<Rightarrow> Inl e
           | Inr v' \<Rightarrow> Inr (b\<lparr>entries := AList.update c v' (entries b)\<rparr>))
      | None \<Rightarrow> Inr (b\<lparr>entries := AList.update c a (entries b)\<rparr>))"

definition unknown_kind :: "string \<Rightarrow> error" where
  "unknown_kind k = TypeError (''Le type '' @ k @ '' est inconnu'')"

text \<open>
  One turn of the loop: the comparison \<open>move['amount'] > 0\<close> chooses the balance, the
  balance is updated, and then, when \<open>self.accounts\<close> is not empty, the kind is looked up
  and the account updated.
\<close>

definition aggregate_move :: "(string \<times> string) list \<Rightarrow> totals \<Rightarrow> move \<Rightarrow> error + totals" where
  "aggregate_move ks t mv =
     (case dec_gt0 (amount mv) of
        Inl e \<Rightarrow> Inl e
      | Inr pos \<Rightarrow>
          (case bump (category mv) (amount mv) (if pos then balances_in t else balances_out t) of
             Inl e \<Rightarrow> Inl e
           | Inr b \<Rightarrow>
               (let t' = (if pos then t\<lparr>balances_in := b\<rparr> else t\<lparr>balances_out := b\<rparr>)
                in if accounts_now t \<noteq> [] then
                     (case map_of ks (kind mv) of
                        Some account \<Rightarrow>
                          (case map_of (accounts_now t) account of
                             Some v \<Rightarrow>
                               (case dec_add v (amount mv) of
                                  Inl e \<Rightarrow> Inl e
                                | Inr v' \<Rightarrow>
                                    Inr (t'\<lparr>accounts_now :=
                                               AList.update account v' (accounts_now t)\<rparr>))
                           | None \<Rightarrow> Inl KeyError)
                      | None \<Rightarrow> Inl (unknown_kind (kind mv)))
                   else Inr t')))"

fun aggregate :: "(string \<times> string) list \<Rightarrow> totals \<Rightarrow> move list \<Rightarrow> error + totals" where
  "aggregate ks t [] = Inr t"
| "aggregate ks t (mv # mvs) =
     (case aggregate_move ks t mv of
        Inl e \<Rightarrow> Inl e
      | Inr t' \<Rightarrow> aggregate ks t' mvs)"

text \<open>
  \<open>MovesFile.__init__\<close>, given the options, the reading of the clock (\<open>datetime.now()\<close>)
  and the lines of the input file. \<open>sorted\<close> compares moves by \<open>__lt__\<close>, that is by date,
  and is stable. In the result, \<open>registry\<close> is what parsing left and the totals hold the
  balances and \<open>self.accounts\<close> as the loop over the moves left them.
\<close>

record moves_file =
  config :: config
  registry :: registry
  moves :: "move list"
  balances :: totals

definition MovesFile_init :: "args \<Rightarrow> datetime \<Rightarrow> string list \<Rightarrow> error + moves_file" where
  "MovesFile_init a now fd =
     (case (case arg_s a of Some s \<Rightarrow> strptime s | None \<Rightarrow> Inr (1900, 1, 1, 0)) of
        Inl e \<Rightarrow> Inl e
      | Inr sd \<Rightarrow>
          (case (case arg_e a of
                   None \<Rightarrow> Inr now
                 | Some e \<Rightarrow> if e = ''Now'' then Inr now else strptime e) of
             Inl e \<Rightarrow> Inl e
           | Inr ed \<Rightarrow>
               (let self = \<lparr>args = a, start_date = sd, end_date = ed\<rparr> in
                case parse self \<lparr>accounts = [], kinds = []\<rparr> fd of
                  (g, reg) \<Rightarrow>
                    (case list_of_gen g of
                       Inl e \<Rightarrow> Inl e
                     | Inr ms \<Rightarrow>
                         (case aggregate (kinds reg)
                                 \<lparr>balances_in = Balance True, balances_out = Balance False,
                                  accounts_now = accounts reg\<rparr>
                                 (sort_key date ms) of
                            Inl e \<Rightarrow> Inl e
                          | Inr t \<Rightarrow>
                              Inr \<lparr>config = self,
                                   registry = reg,
                                   moves = sort_key date ms, balances = t\<rparr>)))))"

text \<open>The line \<open>Resultat\<close> of \<open>MovesFile.balance\<close>: \<open>i.sum() - o.sum()\<close>.\<close>

definition resultat :: "totals \<Rightarrow> error + decimal" where
  "resultat t =
     (case Balance_sum (balances_in t) of
        Inl e \<Rightarrow> Inl e
      | Inr i \<Rightarrow>
          (case Balance_sum (balances_out t) of
             Inl e \<Rightarrow> Inl e
           | Inr o' \<Rightarrow> dec_sub i o'))"


text \<open>
  Amounts that are added without rounding. For a finite decimal with an exponent of at
  least \<open>-s\<close>, \<open>sunits s\<close> is its value counted in units of \<open>10^-s\<close>, an integer, and
  \<open>units s\<close> the absolute value of that. A decimal is \<open>small s\<close> when it is finite with an
  exponent between \<open>-s\<close> and 0: a number written with at most \<open>s\<close> decimals. The amounts
  \<open>ds\<close> are \<open>exact_amounts s\<close> when each is \<open>small s\<close> and their absolute values, in units
  of \<open>10^-s\<close>, add up to less than \<open>10^28\<close>: then every sum of some of them has at most 28
  digits. \<open>balances_exact s t R\<close> is the invariant of the loop under that hypothesis,
  \<open>R\<close> being what the amounts still to come add up to.
\<close>

definition sunits :: "nat \<Rightarrow> decimal \<Rightarrow> int" where
  "sunits s d =
     (case d of
        Finite sg c e \<Rightarrow> with_sign sg (c * 10 ^ nat (e + int s))
      | _ \<Rightarrow> 0)"

definition units :: "nat \<Rightarrow> decimal \<Rightarrow> nat" where
  "units s d = nat \<bar>sunits s d\<bar>"

definition small :: "nat \<Rightarrow> decimal \<Rightarrow> bool" where
  "small s d =
     (case d of
        Finite sg c e \<Rightarrow> - int s \<le> e \<and> e \<le> 0
      | _ \<Rightarrow> False)"

definition exact_amounts :: "nat \<Rightarrow> decimal list \<Rightarrow> bool" where
  "exact_amounts s ds =
     (s \<le> 1000026 \<and> list_all (small s) ds \<and> sum_list (map (units s) ds) < 10 ^ 28)"

definition balances_exact :: "nat \<Rightarrow> totals \<Rightarrow> nat \<Rightarrow> bool" where
  "balances_exact s t R =
     (list_all (small s) (map snd (entries (balances_in t))) \<and>
      list_all (small s) (map snd (entries (balances_out t))) \<and>
      sum_list (map (units s) (map snd (entries (balances_in t)))) +
      sum_list (map (units s) (map snd (entries (balances_out t)))) + R < 10 ^ 28)"

section \<open>The record filter\<close>


lemma filter_move_range:
  "filter_move self mv \<Longrightarrow> start_date self \<le> date mv \<and> date mv \<le> end_date self"
  by (simp add: filter_move_def Let_def split: if_splits)



section \<open>What the parser emits\<close>

lemma parse_loop_filtered:
  "mv \<in> set (yielded (fst (parse_loop self reg m x fd))) \<Longrightarrow> filter_move self mv"
proof (induction self reg m x fd rule: parse_loop.induct)
  case (1 self reg m i line fd)
  show ?case
    using "1.prems" "1.IH"
    apply (subst (asm) parse_loop.simps)
    apply (auto split: if_splits sum.splits gen.splits prod.splits)
    done
qed

text \<open>
  Claim C5. Every record that \<open>parse\<close> yields, for every configuration, registry and
  input, and whether or not the run later ends in an exception, has a date between the
  start date and the end date of the configuration, both included.
\<close>

theorem parse_emits_in_range:
  "mv \<in> set (yielded (fst (parse self reg fd))) \<Longrightarrow>
   start_date self \<le> date mv \<and> date mv \<le> end_date self"
  by (auto simp add: parse_def split: gen.splits dest: parse_loop_filtered filter_move_range)

theorem parse_emits_in_range_witness:
  "\<lparr>index = 2, line_number = 3, date = (2020, 1, 15, 0),
     amount = (Finite True 4250 (- 2)),
     category = ''food'', status = ''P'', kind = ''CB'',
     description = None, comment = []\<rparr>
     \<in> set (yielded (fst (parse
           \<lparr>args = \<lparr>arg_s = Some ''2020/01/01'', arg_e = Some ''2020/12/31'', arg_p = False,
                     arg_x = False, arg_g = None, arg_period = None\<rparr>,
            start_date = (2020, 1, 1, 0), end_date = (2020, 12, 31, 0)\<rparr>
           \<lparr>accounts = [], kinds = []\<rparr>
           [''2019/12/31 5'' @ [euro] @ '' CB food P'' @ [NL],
            ''# comment'' @ [NL],
            ''2020/01/15 -42.50'' @ [euro] @ '' CB food P'' @ [NL],
            ''2021/01/01 7'' @ [euro] @ '' CB food P'' @ [NL],
            ''end'' @ [NL]]))) \<and>
   (2020, 1, 1, 0) \<le> ((2020, 1, 15, 0) :: datetime) \<and>
   ((2020, 1, 15, 0) :: datetime) \<le> (2020, 12, 31, 0)"
proof -
  have h: "\<lparr>index = 2, line_number = 3, date = (2020, 1, 15, 0),
     amount = (Finite True 4250 (- 2)),
     category = ''food'', status = ''P'', kind = ''CB'',
     description = None, comment = []\<rparr>
     \<in> set (yielded (fst (parse
           \<lparr>args = \<lparr>arg_s = Some ''2020/01/01'', arg_e = Some ''2020/12/31'', arg_p = False,
                     arg_x = False, arg_g = None, arg_period = None\<rparr>,
            start_date = (2020, 1, 1, 0), end_date = (2020, 12, 31, 0)\<rparr>
           \<lparr>accounts = [], kinds = []\<rparr>
           [''2019/12/31 5'' @ [euro] @ '' CB food P'' @ [NL],
            ''# comment'' @ [NL],
            ''2020/01/15 -42.50'' @ [euro] @ '' CB food P'' @ [NL],
            ''2021/01/01 7'' @ [euro] @ '' CB food P'' @ [NL],
            ''end'' @ [NL]])))"
    by code_simp
  from parse_emits_in_range [OF h] h show ?thesis by simp
qed

section \<open>Continuation lines\<close>

lemma add_comment_foldl:
  "comment (foldl add mv ls) =
     comment mv @ concat (map (strip_chars '' '')
       (case description mv of
          None \<Rightarrow> tl (filter (\<lambda>l. strip l \<noteq> []) ls)
        | Some d \<Rightarrow> filter (\<lambda>l. strip l \<noteq> []) ls))"
proof (induction ls arbitrary: mv)
  case Nil
  then show ?case by (simp split: option.splits)
next
  case (Cons l ls)
  show ?case
  proof (cases "strip l = []")
    case True
    then have "add mv l = mv" by (simp add: add_def)
    with True Cons.IH [of mv] show ?thesis by (simp split: option.splits)
  next
    case False
    show ?thesis
    proof (cases "description mv")
      case None
      with False have "description (add mv l) = Some (strip l)" "comment (add mv l) = comment mv"
        by (simp_all add: add_def)
      with False None Cons.IH [of "add mv l"] show ?thesis by simp
    next
      case (Some d)
      with False have "description (add mv l) = Some d"
        "comment (add mv l) = comment mv @ strip_chars '' '' l"
        by (simp_all add: add_def)
      with False Some Cons.IH [of "add mv l"] show ?thesis by simp
    qed
  qed
qed

lemma Move_init_fresh:
  "Move_init m i line = Inr mv \<Longrightarrow> description mv = None \<and> comment mv = []"
  by (auto simp add: Move_init_def split: list.splits sum.splits)

text \<open>
  Claim C7, as the code has it. After a record is created from its header line and the
  lines \<open>ls\<close> are added to it in order, its comment is the concatenation, with nothing
  put between the pieces, of the second and later lines that are not blank, each without
  its leading and trailing space characters only (so a line keeps its newline). Blank
  lines add nothing, and with fewer than two lines that are not blank the comment is
  empty.
\<close>

theorem comment_is_concatenation:
  "Move_init m i line = Inr mv \<Longrightarrow>
   comment (foldl add mv ls) =
     concat (map (strip_chars '' '') (tl (filter (\<lambda>l. strip l \<noteq> []) ls)))"
  using add_comment_foldl [of mv ls] Move_init_fresh [of m i line mv] by simp

theorem comment_is_concatenation_witness:
  "Move_init 1 1 (''2020/01/15 -42.50'' @ [euro] @ '' CB food P'' @ [NL]) =
     Inr \<lparr>index = 1, line_number = 1, date = (2020, 1, 15, 0),
          amount = (Finite True 4250 (- 2)),
          category = ''food'', status = ''P'', kind = ''CB'',
          description = None, comment = []\<rparr> \<and>
   comment (foldl add
       \<lparr>index = 1, line_number = 1, date = (2020, 1, 15, 0),
        amount = (Finite True 4250 (- 2)),
        category = ''food'', status = ''P'', kind = ''CB'',
        description = None, comment = []\<rparr>
       [''    lunch'' @ [NL], [NL], ''    with bob  '' @ [NL], ''  and al'']) =
     ''with bob  '' @ [NL] @ ''and al''"
proof -
  have h: "Move_init 1 1 (''2020/01/15 -42.50'' @ [euro] @ '' CB food P'' @ [NL]) =
     Inr \<lparr>index = 1, line_number = 1, date = (2020, 1, 15, 0),
          amount = (Finite True 4250 (- 2)),
          category = ''food'', status = ''P'', kind = ''CB'',
          description = None, comment = []\<rparr>"
    by code_simp
  have "comment (foldl add
       \<lparr>index = 1, line_number = 1, date = (2020, 1, 15, 0),
        amount = (Finite True 4250 (- 2)),
        category = ''food'', status = ''P'', kind = ''CB'',
        description = None, comment = []\<rparr>
       [''    lunch'' @ [NL], [NL], ''    with bob  '' @ [NL], ''  and al'']) =
     concat (map (strip_chars '' '') (tl (filter (\<lambda>l. strip l \<noteq> [])
       [''    lunch'' @ [NL], [NL], ''    with bob  '' @ [NL], ''  and al''])))"
    by (rule comment_is_concatenation [OF h])
  also have "\<dots> = ''with bob  '' @ [NL] @ ''and al''"
    by code_simp
  finally show ?thesis using h by blast
qed

text \<open>
  The parser run on a header followed by three continuation lines: the comment of the
  record it yields is the last two lines with their newlines and no space between them.
\<close>

theorem comment_counterexample:
  "map comment (yielded (fst (parse
       \<lparr>args = \<lparr>arg_s = None, arg_e = None, arg_p = False, arg_x = False,
                 arg_g = None, arg_period = None\<rparr>,
        start_date = (1900, 1, 1, 0), end_date = (2026, 1, 1, 0)\<rparr>
       \<lparr>accounts = [], kinds = []\<rparr>
       [''2020/01/15 -42.50'' @ [euro] @ '' CB food P'' @ [NL],
        ''    lunch'' @ [NL],
        ''    bob'' @ [NL],
        ''    al'' @ [NL]])))
   = [''bob'' @ [NL] @ ''al'' @ [NL]]
   \<and> ''bob'' @ [NL] @ ''al'' @ [NL] \<noteq> ''bob al''
   \<and> ''bob'' @ [NL] @ ''al'' @ [NL] \<noteq> '' bob al''"
  by code_simp

section \<open>Aggregation\<close>

lemma str_nat_length: "1 \<le> k \<Longrightarrow> n < 10 ^ k \<Longrightarrow> length (str_nat n) \<le> k"
proof (induction n arbitrary: k rule: str_nat.induct)
  case (1 n)
  show ?case
  proof (cases "n < 10")
    case True
    with 1 show ?thesis by (simp add: str_nat.simps [of n])
  next
    case False
    with "1.prems" have k: "2 \<le> k"
      by (cases "k = 1") auto
    then obtain j where j: "k = Suc j" "1 \<le> j" by (cases k) auto
    with "1.prems" have "n div 10 < 10 ^ j" by (simp add: less_mult_imp_div_less mult.commute)
    with "1.IH" [OF False j(2)] have "length (str_nat (n div 10)) \<le> j" by simp
    with False j show ?thesis by (simp add: str_nat.simps [of n])
  qed
qed

lemma dec_fix_id:
  assumes "c < 10 ^ 28" and "- int s \<le> e" and "e \<le> 0" and "s \<le> 1000026"
  shows "dec_fix sg c e = Inr (Finite sg c e)"
proof (cases "c = 0")
  case True
  with assms show ?thesis by (simp add: dec_fix_def Etiny_def Emax_def)
next
  case False
  from assms(1) have "length (str_nat c) \<le> 28" by (intro str_nat_length) simp_all
  with False assms show ?thesis
    by (simp add: dec_fix_def Let_def Etiny_def Etop_def prec_def)
qed

lemma units_Finite: "units s (Finite sg c e) = c * 10 ^ nat (e + int s)"
proof -
  have "int c * 10 ^ nat (e + int s) = int (c * 10 ^ nat (e + int s))" by simp
  then have "nat (int c * 10 ^ nat (e + int s)) = c * 10 ^ nat (e + int s)"
    by (simp only: nat_int)
  then show ?thesis by (simp add: units_def sunits_def with_sign_def)
qed

lemma coefficient_le_units: "c \<le> units s (Finite sg c e)"
  by (simp add: units_Finite)

lemma sunits_abs: "\<bar>sunits s d\<bar> = int (units s d)"
  by (simp add: units_def)

lemma with_sign_abs: "with_sign (n < 0) (nat \<bar>n\<bar>) = n"
  by (simp add: with_sign_def)

lemma with_sign_mult: "with_sign sg (c * k) = with_sign sg c * int k"
  by (simp add: with_sign_def)

lemma pow_split:
  assumes "- int s \<le> e" and "e \<le> ea"
  shows "(10::nat) ^ nat (ea - e) * 10 ^ nat (e + int s) = 10 ^ nat (ea + int s)"
proof -
  from assms have "nat (ea - e) + nat (e + int s) = nat (ea + int s)" by simp
  then show ?thesis by (simp add: power_add [symmetric])
qed

lemma small_Finite:
  "small s d \<Longrightarrow> \<exists>sg c e. d = Finite sg c e \<and> - int s \<le> e \<and> e \<le> 0"
  by (cases d) (simp_all add: small_def)

lemma sunits_scaled:
  assumes "- int s \<le> e" and "e \<le> ea"
  shows "with_sign sa (ca * 10 ^ nat (ea - e)) * int (10 ^ nat (e + int s)) =
         sunits s (Finite sa ca ea)"
proof -
  have "with_sign sa (ca * 10 ^ nat (ea - e)) * int (10 ^ nat (e + int s)) =
        with_sign sa (ca * 10 ^ nat (ea - e) * 10 ^ nat (e + int s))"
    by (simp only: with_sign_mult)
  also have "ca * 10 ^ nat (ea - e) * 10 ^ nat (e + int s) = ca * 10 ^ nat (ea + int s)"
    using pow_split [OF assms] by (simp only: mult.assoc)
  finally show ?thesis by (simp add: sunits_def)
qed

lemma dec_add_exact:
  assumes "small s a" and "small s b" and "s \<le> 1000026"
    and "units s a + units s b < 10 ^ 28"
  shows "\<exists>r. dec_add a b = Inr r \<and> small s r \<and> sunits s r = sunits s a + sunits s b"
proof -
  from small_Finite [OF assms(1)] obtain sa ca ea
    where a: "a = Finite sa ca ea" and ea: "- int s \<le> ea" "ea \<le> 0" by blast
  from small_Finite [OF assms(2)] obtain sb cb eb
    where b: "b = Finite sb cb eb" and eb: "- int s \<le> eb" "eb \<le> 0" by blast
  define e where "e = min ea eb"
  define n where
    "n = with_sign sa (ca * 10 ^ nat (ea - e)) + with_sign sb (cb * 10 ^ nat (eb - e))"
  define sg where "sg = (if ca = 0 \<and> cb = 0 then sa \<and> sb else n < 0)"
  define k where "k = nat (e + int s)"
  from ea eb have e: "- int s \<le> e" "e \<le> 0" "e \<le> ea" "e \<le> eb"
    by (simp_all add: e_def)
  have add: "dec_add a b = dec_fix sg (nat \<bar>n\<bar>) e"
    by (simp add: dec_add_def check_nans_def a b Let_def e_def n_def sg_def)
  have nk: "n * int (10 ^ k) = sunits s a + sunits s b"
    unfolding n_def k_def a b
    by (simp only: distrib_right sunits_scaled [OF e(1) e(3)] sunits_scaled [OF e(1) e(4)])
  have "int (nat \<bar>n\<bar> * 10 ^ k) = \<bar>n * int (10 ^ k)\<bar>"
    by (simp add: abs_mult)
  also have "\<dots> \<le> \<bar>sunits s a\<bar> + \<bar>sunits s b\<bar>"
    by (simp only: nk abs_triangle_ineq)
  also have "\<dots> = int (units s a + units s b)"
    by (simp add: sunits_abs)
  finally have "nat \<bar>n\<bar> * 10 ^ k \<le> units s a + units s b" by (simp only: of_nat_le_iff)
  moreover have "nat \<bar>n\<bar> \<le> nat \<bar>n\<bar> * 10 ^ k" by simp
  ultimately have lt: "nat \<bar>n\<bar> < 10 ^ 28" using assms(4) by linarith
  from lt e(1,2) assms(3) have f: "dec_fix sg (nat \<bar>n\<bar>) e = Inr (Finite sg (nat \<bar>n\<bar>) e)"
    by (rule dec_fix_id)
  have w: "with_sign sg (nat \<bar>n\<bar>) = n"
  proof (cases "ca = 0 \<and> cb = 0")
    case True
    then have "n = 0" by (simp add: n_def with_sign_def)
    then show ?thesis by (simp add: with_sign_def)
  next
    case False
    then have "sg = (n < 0)" unfolding sg_def by (simp only: if_False)
    then show ?thesis by (simp only: with_sign_abs)
  qed
  have "sunits s (Finite sg (nat \<bar>n\<bar>) e) = with_sign sg (nat \<bar>n\<bar>) * int (10 ^ k)"
    by (simp only: sunits_def decimal.case with_sign_mult k_def)
  with w nk have "sunits s (Finite sg (nat \<bar>n\<bar>) e) = sunits s a + sunits s b" by simp
  moreover from e have "small s (Finite sg (nat \<bar>n\<bar>) e)" by (simp add: small_def)
  ultimately show ?thesis using add f by simp
qed

lemma units_add_le:
  "sunits s r = sunits s a + sunits s b \<Longrightarrow> units s r \<le> units s a + units s b"
  by (simp add: units_def)

lemma sum_update_Some:
  fixes f :: "'v \<Rightarrow> 'b::comm_monoid_add"
  shows "map_of es c = Some v \<Longrightarrow>
    sum_list (map f (map snd (AList.update c v' es))) + f v =
    sum_list (map f (map snd es)) + f v'"
  by (induction es) (auto simp add: ac_simps)

lemma sum_update_None:
  fixes f :: "'v \<Rightarrow> 'b::comm_monoid_add"
  shows "map_of es c = None \<Longrightarrow>
    sum_list (map f (map snd (AList.update c v' es))) = sum_list (map f (map snd es)) + f v'"
  by (induction es) (auto simp add: ac_simps)

lemma map_of_list_all: "map_of es c = Some v \<Longrightarrow> list_all P (map snd es) \<Longrightarrow> P v"
  by (induction es) (auto split: if_splits)

lemma list_all_update:
  "list_all P (map snd es) \<Longrightarrow> P v' \<Longrightarrow> list_all P (map snd (AList.update c v' es))"
  by (induction es) auto

lemma map_of_le_sum:
  fixes f :: "'v \<Rightarrow> nat"
  shows "map_of es c = Some v \<Longrightarrow> f v \<le> sum_list (map f (map snd es))"
  by (induction es) (auto split: if_splits)

lemma bump_exact:
  assumes "list_all (small s) (map snd (entries b))" and "small s a" and "s \<le> 1000026"
    and "sum_list (map (units s) (map snd (entries b))) + units s a < 10 ^ 28"
  shows "\<exists>b'. bump c a b = Inr b' \<and> reverse b' = reverse b \<and>
           list_all (small s) (map snd (entries b')) \<and>
           sum_list (map (sunits s) (map snd (entries b'))) =
             sum_list (map (sunits s) (map snd (entries b))) + sunits s a \<and>
           sum_list (map (units s) (map snd (entries b'))) \<le>
             sum_list (map (units s) (map snd (entries b))) + units s a"
proof (cases "map_of (entries b) c")
  case None
  define b' where "b' = b\<lparr>entries := AList.update c a (entries b)\<rparr>"
  from None have "bump c a b = Inr b'" by (simp add: bump_def b'_def)
  moreover have "reverse b' = reverse b" by (simp add: b'_def)
  moreover have "list_all (small s) (map snd (entries b'))"
    using list_all_update [OF assms(1,2), of c] by (simp add: b'_def)
  moreover have "sum_list (map (sunits s) (map snd (entries b'))) =
             sum_list (map (sunits s) (map snd (entries b))) + sunits s a"
    using sum_update_None [OF None, of "sunits s" a] by (simp add: b'_def)
  moreover have "sum_list (map (units s) (map snd (entries b'))) =
             sum_list (map (units s) (map snd (entries b))) + units s a"
    using sum_update_None [OF None, of "units s" a] by (simp add: b'_def)
  ultimately show ?thesis by simp
next
  case (Some v)
  from map_of_list_all [OF Some assms(1)] have sv: "small s v" .
  from map_of_le_sum [OF Some, of "units s"] assms(4)
  have "units s v + units s a < 10 ^ 28" by linarith
  from dec_add_exact [OF sv assms(2,3) this] obtain r
    where r: "dec_add v a = Inr r" "small s r" "sunits s r = sunits s v + sunits s a"
    by blast
  define b' where "b' = b\<lparr>entries := AList.update c r (entries b)\<rparr>"
  from Some r(1) have "bump c a b = Inr b'" by (simp add: bump_def b'_def)
  moreover have "reverse b' = reverse b" by (simp add: b'_def)
  moreover have "list_all (small s) (map snd (entries b'))"
    using list_all_update [OF assms(1) r(2), of c] by (simp add: b'_def)
  moreover have "sum_list (map (sunits s) (map snd (entries b'))) =
             sum_list (map (sunits s) (map snd (entries b))) + sunits s a"
    using sum_update_Some [OF Some, of "sunits s" r] r(3) by (simp add: b'_def)
  moreover have "sum_list (map (units s) (map snd (entries b'))) \<le>
             sum_list (map (units s) (map snd (entries b))) + units s a"
    using sum_update_Some [OF Some, of "units s" r] units_add_le [OF r(3)]
    by (simp add: b'_def)
  ultimately show ?thesis by simp
qed

lemma dec_gt0_small:
  "small s d \<Longrightarrow> dec_gt0 d = Inr (0 < sunits s d)"
  by (cases d)
    (auto simp add: small_def dec_gt0_def sunits_def with_sign_def zero_less_mult_iff
      mult_less_0_iff)

lemma aggregate_move_balances:
  "aggregate_move ks t mv = Inr t' \<Longrightarrow> dec_gt0 (amount mv) = Inr pos \<Longrightarrow>
   bump (category mv) (amount mv) (if pos then balances_in t else balances_out t) = Inr b \<Longrightarrow>
   balances_in t' = (if pos then b else balances_in t) \<and>
   balances_out t' = (if pos then balances_out t else b)"
  by (auto simp add: aggregate_move_def Let_def split: if_splits option.splits sum.splits)

lemma aggregate_move_total:
  "accounts_now t = [] \<Longrightarrow> dec_gt0 (amount mv) = Inr pos \<Longrightarrow>
   bump (category mv) (amount mv) (if pos then balances_in t else balances_out t) = Inr b \<Longrightarrow>
   \<exists>t'. aggregate_move ks t mv = Inr t' \<and> accounts_now t' = []"
  by (auto simp add: aggregate_move_def Let_def)

lemma aggregate_move_exact:
  assumes "balances_exact s t (units s (amount mv) + R)" and "small s (amount mv)"
    and "s \<le> 1000026"
  shows "(accounts_now t = [] \<longrightarrow>
            (\<exists>t'. aggregate_move ks t mv = Inr t' \<and> accounts_now t' = [])) \<and>
         (\<forall>t'. aggregate_move ks t mv = Inr t' \<longrightarrow>
            balances_exact s t' R \<and>
            reverse (balances_in t') = reverse (balances_in t) \<and>
            reverse (balances_out t') = reverse (balances_out t) \<and>
            sum_list (map (sunits s) (map snd (entries (balances_in t')))) =
              sum_list (map (sunits s) (map snd (entries (balances_in t)))) +
              (if 0 < sunits s (amount mv) then sunits s (amount mv) else 0) \<and>
            sum_list (map (sunits s) (map snd (entries (balances_out t')))) =
              sum_list (map (sunits s) (map snd (entries (balances_out t)))) +
              (if 0 < sunits s (amount mv) then 0 else sunits s (amount mv)))"
proof -
  define pos where "pos = (0 < sunits s (amount mv))"
  define b0 where "b0 = (if pos then balances_in t else balances_out t)"
  from assms(2) have g: "dec_gt0 (amount mv) = Inr pos"
    by (simp add: dec_gt0_small pos_def)
  from assms(1) have i: "list_all (small s) (map snd (entries (balances_in t)))"
    and o: "list_all (small s) (map snd (entries (balances_out t)))"
    and u: "sum_list (map (units s) (map snd (entries (balances_in t)))) +
      sum_list (map (units s) (map snd (entries (balances_out t)))) +
      (units s (amount mv) + R) < 10 ^ 28"
    by (simp_all add: balances_exact_def)
  from i o have b0s: "list_all (small s) (map snd (entries b0))"
    by (simp add: b0_def)
  from u have b0u: "sum_list (map (units s) (map snd (entries b0))) + units s (amount mv) < 10 ^ 28"
    by (simp add: b0_def)
  from bump_exact [OF b0s assms(2,3) b0u, of "category mv"] obtain b
    where b: "bump (category mv) (amount mv) b0 = Inr b" "reverse b = reverse b0"
      "list_all (small s) (map snd (entries b))"
      "sum_list (map (sunits s) (map snd (entries b))) =
         sum_list (map (sunits s) (map snd (entries b0))) + sunits s (amount mv)"
      "sum_list (map (units s) (map snd (entries b))) \<le>
         sum_list (map (units s) (map snd (entries b0))) + units s (amount mv)"
    by blast
  show ?thesis
  proof (intro conjI impI allI)
    assume "accounts_now t = []"
    from aggregate_move_total [OF this g b(1) [unfolded b0_def]]
    show "\<exists>t'. aggregate_move ks t mv = Inr t' \<and> accounts_now t' = []" .
  next
    fix t'
    assume a: "aggregate_move ks t mv = Inr t'"
    from aggregate_move_balances [OF a g b(1) [unfolded b0_def]]
    have t': "balances_in t' = (if pos then b else balances_in t)"
      "balances_out t' = (if pos then balances_out t else b)" by simp_all
    show "balances_exact s t' R"
    proof (cases pos)
      case True
      with t' b(3,5) o u show ?thesis by (simp add: balances_exact_def b0_def)
    next
      case False
      with t' b(3,5) i u show ?thesis by (simp add: balances_exact_def b0_def)
    qed
    from t' b(2) show "reverse (balances_in t') = reverse (balances_in t)"
      by (simp add: b0_def split: if_splits)
    from t' b(2) show "reverse (balances_out t') = reverse (balances_out t)"
      by (simp add: b0_def split: if_splits)
    from t' b(4) show "sum_list (map (sunits s) (map snd (entries (balances_in t')))) =
              sum_list (map (sunits s) (map snd (entries (balances_in t)))) +
              (if 0 < sunits s (amount mv) then sunits s (amount mv) else 0)"
      by (simp add: b0_def pos_def split: if_splits)
    from t' b(4) show "sum_list (map (sunits s) (map snd (entries (balances_out t')))) =
              sum_list (map (sunits s) (map snd (entries (balances_out t)))) +
              (if 0 < sunits s (amount mv) then 0 else sunits s (amount mv))"
      by (simp add: b0_def pos_def split: if_splits)
  qed
qed

lemma aggregate_exact:
  assumes "balances_exact s t (sum_list (map (units s) (map amount mvs)))"
    and "list_all (small s) (map amount mvs)" and "s \<le> 1000026"
  shows "(accounts_now t = [] \<longrightarrow> (\<exists>t'. aggregate ks t mvs = Inr t')) \<and>
         (\<forall>t'. aggregate ks t mvs = Inr t' \<longrightarrow>
            balances_exact s t' 0 \<and>
            reverse (balances_in t') = reverse (balances_in t) \<and>
            reverse (balances_out t') = reverse (balances_out t) \<and>
            sum_list (map (sunits s) (map snd (entries (balances_in t')))) =
              sum_list (map (sunits s) (map snd (entries (balances_in t)))) +
              sum_list (map (sunits s) (filter (\<lambda>d. 0 < sunits s d) (map amount mvs))) \<and>
            sum_list (map (sunits s) (map snd (entries (balances_out t')))) =
              sum_list (map (sunits s) (map snd (entries (balances_out t)))) +
              sum_list (map (sunits s) (filter (\<lambda>d. \<not> 0 < sunits s d) (map amount mvs))))"
  using assms(1,2)
proof (induction mvs arbitrary: t)
  case Nil
  then show ?case by simp
next
  case (Cons mv mvs)
  from Cons.prems(1)
  have e: "balances_exact s t (units s (amount mv) + sum_list (map (units s) (map amount mvs)))"
    by simp
  from Cons.prems(2) have sm: "small s (amount mv)" and sms: "list_all (small s) (map amount mvs)"
    by simp_all
  note m = aggregate_move_exact [OF e sm assms(3), of ks]
  show ?case
  proof (intro conjI impI allI)
    assume "accounts_now t = []"
    with m obtain t1 where t1: "aggregate_move ks t mv = Inr t1" "accounts_now t1 = []"
      by blast
    from m t1(1) have "balances_exact s t1 (sum_list (map (units s) (map amount mvs)))"
      by blast
    from Cons.IH [OF this sms] t1 show "\<exists>t'. aggregate ks t (mv # mvs) = Inr t'"
      by simp
  next
    fix t'
    assume a: "aggregate ks t (mv # mvs) = Inr t'"
    then obtain t1 where t1: "aggregate_move ks t mv = Inr t1" "aggregate ks t1 mvs = Inr t'"
      by (auto split: sum.splits)
    from m t1(1) have m1: "balances_exact s t1 (sum_list (map (units s) (map amount mvs)))"
      "reverse (balances_in t1) = reverse (balances_in t)"
      "reverse (balances_out t1) = reverse (balances_out t)"
      "sum_list (map (sunits s) (map snd (entries (balances_in t1)))) =
         sum_list (map (sunits s) (map snd (entries (balances_in t)))) +
         (if 0 < sunits s (amount mv) then sunits s (amount mv) else 0)"
      "sum_list (map (sunits s) (map snd (entries (balances_out t1)))) =
         sum_list (map (sunits s) (map snd (entries (balances_out t)))) +
         (if 0 < sunits s (amount mv) then 0 else sunits s (amount mv))"
      by blast+
    from Cons.IH [OF m1(1) sms] t1(2)
    have i: "balances_exact s t' 0"
      "reverse (balances_in t') = reverse (balances_in t1)"
      "reverse (balances_out t') = reverse (balances_out t1)"
      "sum_list (map (sunits s) (map snd (entries (balances_in t')))) =
         sum_list (map (sunits s) (map snd (entries (balances_in t1)))) +
         sum_list (map (sunits s) (filter (\<lambda>d. 0 < sunits s d) (map amount mvs)))"
      "sum_list (map (sunits s) (map snd (entries (balances_out t')))) =
         sum_list (map (sunits s) (map snd (entries (balances_out t1)))) +
         sum_list (map (sunits s) (filter (\<lambda>d. \<not> 0 < sunits s d) (map amount mvs)))"
      by blast+
    from i(1) show "balances_exact s t' 0" .
    from i(2) m1(2) show "reverse (balances_in t') = reverse (balances_in t)" by simp
    from i(3) m1(3) show "reverse (balances_out t') = reverse (balances_out t)" by simp
    from i(4) m1(4) show "sum_list (map (sunits s) (map snd (entries (balances_in t')))) =
              sum_list (map (sunits s) (map snd (entries (balances_in t)))) +
              sum_list (map (sunits s)
                (filter (\<lambda>d. 0 < sunits s d) (map amount (mv # mvs))))"
      by simp
    from i(5) m1(5) show "sum_list (map (sunits s) (map snd (entries (balances_out t')))) =
              sum_list (map (sunits s) (map snd (entries (balances_out t)))) +
              sum_list (map (sunits s)
                (filter (\<lambda>d. \<not> 0 < sunits s d) (map amount (mv # mvs))))"
      by simp
  qed
qed

lemma small_zero: "small s (Finite False 0 0)" "sunits s (Finite False 0 0) = 0"
  "units s (Finite False 0 0) = 0"
  by (simp_all add: small_def sunits_def units_def with_sign_def)

lemma sum_from_exact:
  assumes "s \<le> 1000026"
  shows "small s acc \<Longrightarrow> list_all (small s) vs \<Longrightarrow>
    units s acc + sum_list (map (units s) vs) < 10 ^ 28 \<Longrightarrow>
    \<exists>x. sum_from acc vs = Inr x \<and> small s x \<and>
        sunits s x = sunits s acc + sum_list (map (sunits s) vs)"
proof (induction vs arbitrary: acc)
  case Nil
  then show ?case by simp
next
  case (Cons v vs)
  from Cons.prems(2) have sv: "small s v" and svs: "list_all (small s) vs" by simp_all
  from Cons.prems(3) have "units s acc + units s v < 10 ^ 28" by simp
  from dec_add_exact [OF Cons.prems(1) sv assms this] obtain r
    where r: "dec_add acc v = Inr r" "small s r" "sunits s r = sunits s acc + sunits s v"
    by blast
  from units_add_le [OF r(3)] Cons.prems(3)
  have "units s r + sum_list (map (units s) vs) < 10 ^ 28" by simp
  from Cons.IH [OF r(2) svs this] r show ?case by (simp add: add.assoc)
qed

lemma py_sum_exact:
  assumes "s \<le> 1000026" and "list_all (small s) vs"
    and "sum_list (map (units s) vs) < 10 ^ 28"
  shows "\<exists>x. py_sum vs = Inr x \<and> small s x \<and> sunits s x = sum_list (map (sunits s) vs)"
proof (cases vs)
  case Nil
  then show ?thesis by (simp add: py_sum_def small_zero)
next
  case (Cons v vs')
  from assms(2) Cons have sv: "small s v" and svs: "list_all (small s) vs'" by simp_all
  from assms(3) Cons have "units s v + units s (Finite False 0 0) < 10 ^ 28"
    by (simp add: small_zero)
  from dec_add_exact [OF sv small_zero(1) assms(1) this] obtain r
    where r: "dec_add v (Finite False 0 0) = Inr r" "small s r" "sunits s r = sunits s v"
    by (auto simp add: small_zero)
  from r(3) have "units s r = units s v" by (simp add: units_def)
  with assms(3) Cons have "units s r + sum_list (map (units s) vs') < 10 ^ 28" by simp
  from sum_from_exact [OF assms(1) r(2) svs this] r Cons show ?thesis
    by (simp add: py_sum_def)
qed

lemma abs_sum_le: "\<bar>sum_list (map (sunits s) vs)\<bar> \<le> int (sum_list (map (units s) vs))"
proof (induction vs)
  case Nil
  then show ?case by simp
next
  case (Cons v vs)
  have "\<bar>sunits s v + sum_list (map (sunits s) vs)\<bar> \<le>
        \<bar>sunits s v\<bar> + \<bar>sum_list (map (sunits s) vs)\<bar>"
    by (rule abs_triangle_ineq)
  with Cons show ?case by (simp add: sunits_abs)
qed

lemma units_of_sum:
  "sunits s x = sum_list (map (sunits s) vs) \<Longrightarrow> units s x \<le> sum_list (map (units s) vs)"
  using abs_sum_le [of s vs] by (simp add: units_def)

lemma dec_mul_unit:
  assumes "small s x" and "units s x < 10 ^ 28" and "s \<le> 1000026" and "k = 1 \<or> k = - 1"
  shows "\<exists>r. dec_mul_int x k = Inr r \<and> small s r \<and> sunits s r = k * sunits s x"
proof -
  from small_Finite [OF assms(1)] obtain sg c e
    where x: "x = Finite sg c e" and e: "- int s \<le> e" "e \<le> 0" by blast
  from coefficient_le_units [of c s sg e] assms(2) x have c: "c < 10 ^ 28" by simp
  from assms(4) have k: "c * nat \<bar>k\<bar> = c" by auto
  have "dec_fix (sg \<noteq> (k < 0)) (c * nat \<bar>k\<bar>) e = dec_fix (sg \<noteq> (k < 0)) c e"
    by (simp only: k)
  also have "\<dots> = Inr (Finite (sg \<noteq> (k < 0)) c e)"
    using c e assms(3) by (rule dec_fix_id)
  finally have "dec_mul_int x k = Inr (Finite (sg \<noteq> (k < 0)) c e)"
    by (simp only: dec_mul_int_def x decimal.case)
  moreover from e have "small s (Finite (sg \<noteq> (k < 0)) c e)" by (simp add: small_def)
  moreover from assms(4) x have "sunits s (Finite (sg \<noteq> (k < 0)) c e) = k * sunits s x"
    by (auto simp add: sunits_def with_sign_def)
  ultimately show ?thesis by simp
qed

lemma Balance_sum_exact:
  assumes "s \<le> 1000026" and "list_all (small s) (map snd (entries b))"
    and "sum_list (map (units s) (map snd (entries b))) < 10 ^ 28"
  shows "\<exists>x. Balance_sum b = Inr x \<and> small s x \<and>
           sunits s x = coef b * sum_list (map (sunits s) (map snd (entries b)))"
proof (cases "entries b = []")
  case True
  then show ?thesis by (simp add: Balance_sum_def small_zero)
next
  case False
  from py_sum_exact [OF assms] obtain x
    where x: "py_sum (map snd (entries b)) = Inr x" "small s x"
      "sunits s x = sum_list (map (sunits s) (map snd (entries b)))" by blast
  from units_of_sum [OF x(3)] assms(3) have "units s x < 10 ^ 28" by simp
  have ck: "coef b = 1 \<or> coef b = - 1" by (simp add: coef_def)
  from dec_mul_unit [OF x(2) \<open>units s x < 10 ^ 28\<close> assms(1) ck] obtain r
    where "dec_mul_int x (coef b) = Inr r" "small s r" "sunits s r = coef b * sunits s x"
    by blast
  with False x show ?thesis by (simp add: Balance_sum_def)
qed

lemma dec_sub_exact:
  assumes "small s a" and "small s b" and "s \<le> 1000026"
    and "units s a + units s b < 10 ^ 28"
  shows "\<exists>r. dec_sub a b = Inr r \<and> small s r \<and> sunits s r = sunits s a - sunits s b"
proof -
  from small_Finite [OF assms(1)] obtain sa ca ea where a: "a = Finite sa ca ea" by blast
  from small_Finite [OF assms(2)] obtain sb cb eb where b: "b = Finite sb cb eb" by blast
  from assms(2) b have n: "small s (copy_negate b)" "sunits s (copy_negate b) = - sunits s b"
    by (simp_all add: copy_negate_def small_def sunits_def with_sign_def)
  from n(2) have "units s (copy_negate b) = units s b" by (simp add: units_def)
  with assms(4) have "units s a + units s (copy_negate b) < 10 ^ 28" by simp
  from dec_add_exact [OF assms(1) n(1) assms(3) this] n(2) a b show ?thesis
    by (simp add: dec_sub_def check_nans_def)
qed

lemma dec_val_sunits:
  assumes "small s d"
  shows "dec_val d = of_int (sunits s d) / 10 ^ s"
proof -
  from small_Finite [OF assms] obtain sg c e
    where d: "d = Finite sg c e" and e: "- int s \<le> e" "e \<le> 0" by blast
  define a where "a = nat (e + int s)"
  define b where "b = nat (- e)"
  from e have s: "s = a + b" by (simp add: a_def b_def)
  have v: "dec_val d = (if sg then - 1 else 1) * (of_nat c / 10 ^ b)"
    using e(2) by (cases "e = 0") (simp_all add: dec_val_def d b_def)
  have u: "(of_int (sunits s d) :: rat) = (if sg then - 1 else 1) * (of_nat c * 10 ^ a)"
    by (simp add: sunits_def d with_sign_def a_def)
  have "(of_nat c * 10 ^ a :: rat) / 10 ^ s = of_nat c / 10 ^ b"
    by (simp add: s power_add)
  with v u show ?thesis by simp
qed

lemma dec_val_pos: "small s d \<Longrightarrow> (0 < dec_val d) = (0 < sunits s d)"
  by (simp add: dec_val_sunits zero_less_divide_iff)

lemma sum_dec_val:
  "list_all (small s) ds \<Longrightarrow>
   sum_list (map dec_val ds) = of_int (sum_list (map (sunits s) ds)) / 10 ^ s"
  by (induction ds) (simp_all add: dec_val_sunits add_divide_distrib)

lemma filter_pos:
  "list_all (small s) ds \<Longrightarrow>
   filter (\<lambda>d. 0 < dec_val d) ds = filter (\<lambda>d. 0 < sunits s d) ds \<and>
   filter (\<lambda>d. dec_val d \<le> 0) ds = filter (\<lambda>d. \<not> 0 < sunits s d) ds"
  by (induction ds) (auto simp add: dec_val_pos not_less [symmetric])

lemma list_all_filter: "list_all P xs \<Longrightarrow> list_all P (filter Q xs)"
  by (induction xs) auto

lemma sum_split:
  fixes f :: "'a \<Rightarrow> int"
  shows "sum_list (map f (filter P xs)) + sum_list (map f (filter (\<lambda>x. \<not> P x) xs)) =
         sum_list (map f xs)"
  by (induction xs) auto

lemma amounts_filter:
  "map amount (filter (\<lambda>mv. P (amount mv)) mvs) = filter P (map amount mvs)"
  by (induction mvs) auto

lemma resultat_exact:
  assumes "balances_exact s t 0" and "s \<le> 1000026"
    and "reverse (balances_in t)" and "\<not> reverse (balances_out t)"
  shows "\<exists>ti tout r. Balance_sum (balances_in t) = Inr ti \<and> small s ti \<and>
           sunits s ti = sum_list (map (sunits s) (map snd (entries (balances_in t)))) \<and>
           Balance_sum (balances_out t) = Inr tout \<and> small s tout \<and>
           sunits s tout = - sum_list (map (sunits s) (map snd (entries (balances_out t)))) \<and>
           resultat t = Inr r \<and> small s r \<and>
           sunits s r = sum_list (map (sunits s) (map snd (entries (balances_in t)))) +
                        sum_list (map (sunits s) (map snd (entries (balances_out t))))"
proof -
  from assms(1) have i: "list_all (small s) (map snd (entries (balances_in t)))"
    and o: "list_all (small s) (map snd (entries (balances_out t)))"
    and u: "sum_list (map (units s) (map snd (entries (balances_in t)))) +
      sum_list (map (units s) (map snd (entries (balances_out t)))) < 10 ^ 28"
    by (simp_all add: balances_exact_def)
  from u have ui: "sum_list (map (units s) (map snd (entries (balances_in t)))) < 10 ^ 28"
    and uo: "sum_list (map (units s) (map snd (entries (balances_out t)))) < 10 ^ 28"
    by simp_all
  from Balance_sum_exact [OF assms(2) i ui] assms(3) obtain ti
    where ti: "Balance_sum (balances_in t) = Inr ti" "small s ti"
      "sunits s ti = sum_list (map (sunits s) (map snd (entries (balances_in t))))"
    by (auto simp add: coef_def)
  from Balance_sum_exact [OF assms(2) o uo] assms(4) obtain tout
    where tout: "Balance_sum (balances_out t) = Inr tout" "small s tout"
      "sunits s tout = - sum_list (map (sunits s) (map snd (entries (balances_out t))))"
    by (auto simp add: coef_def)
  from units_of_sum [OF ti(3)]
  have a: "units s ti \<le> sum_list (map (units s) (map snd (entries (balances_in t))))" .
  from tout(3) have "\<bar>sunits s tout\<bar> =
      \<bar>sum_list (map (sunits s) (map snd (entries (balances_out t))))\<bar>" by simp
  with abs_sum_le [of s "map snd (entries (balances_out t))"]
  have b: "units s tout \<le> sum_list (map (units s) (map snd (entries (balances_out t))))"
    by (simp add: units_def)
  from a b u have "units s ti + units s tout < 10 ^ 28" by linarith
  from dec_sub_exact [OF ti(2) tout(2) assms(2) this] obtain r
    where r: "dec_sub ti tout = Inr r" "small s r" "sunits s r = sunits s ti - sunits s tout"
    by blast
  from r(1) ti(1) tout(1) have "resultat t = Inr r" by (simp add: resultat_def)
  with ti tout r show ?thesis by simp
qed

lemma amounts_sums:
  assumes "list_all (small s) (map amount mvs)"
  shows "sum_list (map (\<lambda>mv. dec_val (amount mv)) (filter (\<lambda>mv. 0 < dec_val (amount mv)) mvs)) =
           of_int (sum_list (map (sunits s) (filter (\<lambda>d. 0 < sunits s d) (map amount mvs)))) /
             10 ^ s"
    and "sum_list (map (\<lambda>mv. dec_val (amount mv)) (filter (\<lambda>mv. dec_val (amount mv) \<le> 0) mvs)) =
           of_int (sum_list (map (sunits s) (filter (\<lambda>d. \<not> 0 < sunits s d) (map amount mvs)))) /
             10 ^ s"
    and "sum_list (map (\<lambda>mv. dec_val (amount mv)) mvs) =
           of_int (sum_list (map (sunits s) (map amount mvs))) / 10 ^ s"
proof -
  have m: "\<And>P. map (\<lambda>mv. dec_val (amount mv)) (filter (\<lambda>mv. P (amount mv)) mvs) =
               map dec_val (filter P (map amount mvs))"
    by (simp add: amounts_filter [symmetric] comp_def)
  from filter_pos [OF assms]
  have f: "filter (\<lambda>d. 0 < dec_val d) (map amount mvs) =
             filter (\<lambda>d. 0 < sunits s d) (map amount mvs)"
    "filter (\<lambda>d. dec_val d \<le> 0) (map amount mvs) =
             filter (\<lambda>d. \<not> 0 < sunits s d) (map amount mvs)"
    by simp_all
  from assms have p: "list_all (small s) (filter (\<lambda>d. 0 < sunits s d) (map amount mvs))"
    and n: "list_all (small s) (filter (\<lambda>d. \<not> 0 < sunits s d) (map amount mvs))"
    by (rule list_all_filter)+
  show "sum_list (map (\<lambda>mv. dec_val (amount mv)) (filter (\<lambda>mv. 0 < dec_val (amount mv)) mvs)) =
           of_int (sum_list (map (sunits s) (filter (\<lambda>d. 0 < sunits s d) (map amount mvs)))) /
             10 ^ s"
    by (simp only: m [of "\<lambda>d. 0 < dec_val d"] f sum_dec_val [OF p])
  show "sum_list (map (\<lambda>mv. dec_val (amount mv)) (filter (\<lambda>mv. dec_val (amount mv) \<le> 0) mvs)) =
           of_int (sum_list (map (sunits s) (filter (\<lambda>d. \<not> 0 < sunits s d) (map amount mvs)))) /
             10 ^ s"
    by (simp only: m [of "\<lambda>d. dec_val d \<le> 0"] f sum_dec_val [OF n])
  have "map (\<lambda>mv. dec_val (amount mv)) mvs = map dec_val (map amount mvs)"
    by (simp add: comp_def)
  then show "sum_list (map (\<lambda>mv. dec_val (amount mv)) mvs) =
           of_int (sum_list (map (sunits s) (map amount mvs))) / 10 ^ s"
    by (simp only: sum_dec_val [OF assms])
qed

text \<open>
  Claim C8, as the code has it. A sum of decimals is rounded to 28 significant digits, so
  the equalities of the claim hold when nothing is rounded. Take records whose amounts
  are finite numbers written with at most \<open>s\<close> decimals and without a positive exponent,
  and whose absolute values, counted in units of \<open>10^-s\<close>, add up to less than \<open>10^28\<close>.
  For the aggregation loop started with the two empty balances: when it ends without an
  exception, which it always does when no account is declared, \<open>sum\<close> of the values of
  the income balance is the sum of the amounts that are positive, \<open>sum\<close> of the values
  of the expense balance is the sum of the amounts that are zero or negative,
  \<open>Balance.sum\<close> is the first for the income balance and the opposite of the second for
  the expense balance, and the income total minus the expense total (the line
  \<open>Resultat\<close>) is the sum of all the amounts.
\<close>

theorem balance_sums:
  assumes "exact_amounts s (map amount mvs)"
  shows "(accs = [] \<longrightarrow>
           (\<exists>t. aggregate ks \<lparr>balances_in = Balance True, balances_out = Balance False,
                               accounts_now = accs\<rparr> mvs = Inr t)) \<and>
         (\<forall>t. aggregate ks \<lparr>balances_in = Balance True, balances_out = Balance False,
                             accounts_now = accs\<rparr> mvs = Inr t \<longrightarrow>
            (\<exists>vi vo ti tout r.
               py_sum (map snd (entries (balances_in t))) = Inr vi \<and>
               dec_val vi =
                 sum_list (map (\<lambda>mv. dec_val (amount mv))
                   (filter (\<lambda>mv. 0 < dec_val (amount mv)) mvs)) \<and>
               py_sum (map snd (entries (balances_out t))) = Inr vo \<and>
               dec_val vo =
                 sum_list (map (\<lambda>mv. dec_val (amount mv))
                   (filter (\<lambda>mv. dec_val (amount mv) \<le> 0) mvs)) \<and>
               Balance_sum (balances_in t) = Inr ti \<and> dec_val ti = dec_val vi \<and>
               Balance_sum (balances_out t) = Inr tout \<and> dec_val tout = - dec_val vo \<and>
               resultat t = Inr r \<and>
               dec_val r = sum_list (map (\<lambda>mv. dec_val (amount mv)) mvs)))"
proof -
  define t0 where "t0 = \<lparr>balances_in = Balance True, balances_out = Balance False,
                         accounts_now = accs\<rparr>"
  from assms have s: "s \<le> 1000026" and sm: "list_all (small s) (map amount mvs)"
    and tot: "sum_list (map (units s) (map amount mvs)) < 10 ^ 28"
    by (simp_all add: exact_amounts_def)
  from tot have e0: "balances_exact s t0 (sum_list (map (units s) (map amount mvs)))"
    by (simp add: balances_exact_def t0_def Balance_def)
  note agg = aggregate_exact [OF e0 sm s, of ks]
  have one: "accs = [] \<longrightarrow> (\<exists>t. aggregate ks t0 mvs = Inr t)"
    using agg by (simp add: t0_def)
  have two: "\<exists>vi vo ti tout r.
               py_sum (map snd (entries (balances_in t))) = Inr vi \<and>
               dec_val vi =
                 sum_list (map (\<lambda>mv. dec_val (amount mv))
                   (filter (\<lambda>mv. 0 < dec_val (amount mv)) mvs)) \<and>
               py_sum (map snd (entries (balances_out t))) = Inr vo \<and>
               dec_val vo =
                 sum_list (map (\<lambda>mv. dec_val (amount mv))
                   (filter (\<lambda>mv. dec_val (amount mv) \<le> 0) mvs)) \<and>
               Balance_sum (balances_in t) = Inr ti \<and> dec_val ti = dec_val vi \<and>
               Balance_sum (balances_out t) = Inr tout \<and> dec_val tout = - dec_val vo \<and>
               resultat t = Inr r \<and>
               dec_val r = sum_list (map (\<lambda>mv. dec_val (amount mv)) mvs)"
    if a: "aggregate ks t0 mvs = Inr t" for t
  proof -
    from agg a have ex: "balances_exact s t 0"
      and ri: "reverse (balances_in t)" and ro: "\<not> reverse (balances_out t)"
      and si: "sum_list (map (sunits s) (map snd (entries (balances_in t)))) =
                 sum_list (map (sunits s) (filter (\<lambda>d. 0 < sunits s d) (map amount mvs)))"
      and so: "sum_list (map (sunits s) (map snd (entries (balances_out t)))) =
                 sum_list (map (sunits s) (filter (\<lambda>d. \<not> 0 < sunits s d) (map amount mvs)))"
      by (simp_all add: t0_def Balance_def)
    from ex have i: "list_all (small s) (map snd (entries (balances_in t)))"
      and o: "list_all (small s) (map snd (entries (balances_out t)))"
      and ui: "sum_list (map (units s) (map snd (entries (balances_in t)))) < 10 ^ 28"
      and uo: "sum_list (map (units s) (map snd (entries (balances_out t)))) < 10 ^ 28"
      by (simp_all add: balances_exact_def)
    from py_sum_exact [OF s i ui] obtain vi
      where vi: "py_sum (map snd (entries (balances_in t))) = Inr vi" "small s vi"
        "sunits s vi = sum_list (map (sunits s) (map snd (entries (balances_in t))))" by blast
    from py_sum_exact [OF s o uo] obtain vo
      where vo: "py_sum (map snd (entries (balances_out t))) = Inr vo" "small s vo"
        "sunits s vo = sum_list (map (sunits s) (map snd (entries (balances_out t))))" by blast
    from resultat_exact [OF ex s ri ro] obtain ti tout r
      where ti: "Balance_sum (balances_in t) = Inr ti" "small s ti"
          "sunits s ti = sum_list (map (sunits s) (map snd (entries (balances_in t))))"
        and tout: "Balance_sum (balances_out t) = Inr tout" "small s tout"
          "sunits s tout = - sum_list (map (sunits s) (map snd (entries (balances_out t))))"
        and r: "resultat t = Inr r" "small s r"
          "sunits s r = sum_list (map (sunits s) (map snd (entries (balances_in t)))) +
                        sum_list (map (sunits s) (map snd (entries (balances_out t))))"
      by blast
    have v1: "dec_val vi = sum_list (map (\<lambda>mv. dec_val (amount mv))
                   (filter (\<lambda>mv. 0 < dec_val (amount mv)) mvs))"
      by (simp only: dec_val_sunits [OF vi(2)] vi(3) si amounts_sums(1) [OF sm])
    have v2: "dec_val vo = sum_list (map (\<lambda>mv. dec_val (amount mv))
                   (filter (\<lambda>mv. dec_val (amount mv) \<le> 0) mvs))"
      by (simp only: dec_val_sunits [OF vo(2)] vo(3) so amounts_sums(2) [OF sm])
    have v3: "dec_val ti = dec_val vi"
      by (simp only: dec_val_sunits [OF ti(2)] dec_val_sunits [OF vi(2)] ti(3) vi(3))
    have v4: "dec_val tout = - dec_val vo"
      by (simp only: dec_val_sunits [OF tout(2)] dec_val_sunits [OF vo(2)] tout(3) vo(3)
          of_int_minus minus_divide_left)
    have "sunits s r = sum_list (map (sunits s) (map amount mvs))"
      by (simp only: r(3) si so sum_split)
    then have v5: "dec_val r = sum_list (map (\<lambda>mv. dec_val (amount mv)) mvs)"
      by (simp only: dec_val_sunits [OF r(2)] amounts_sums(3) [OF sm])
    from vi(1) v1 vo(1) v2 ti(1) v3 tout(1) v4 r(1) v5 show ?thesis by blast
  qed
  from one two show ?thesis unfolding t0_def by blast
qed

theorem balance_sums_witness:
  "exact_amounts 2 (map amount
     [\<lparr>index = 1, line_number = 1, date = (2020, 1, 10, 0),
       amount = Finite False 10 0,
       category = ''gift'', status = ''X'', kind = ''TR'', description = None, comment = []\<rparr>,
      \<lparr>index = 2, line_number = 2, date = (2020, 1, 15, 0),
       amount = Finite True 4250 (- 2),
       category = ''food'', status = ''P'', kind = ''CB'', description = None, comment = []\<rparr>,
      \<lparr>index = 3, line_number = 3, date = (2020, 1, 16, 0),
       amount = Finite True 750 (- 2),
       category = ''food'', status = ''P'', kind = ''CB'', description = None, comment = []\<rparr>]) \<and>
   aggregate [] \<lparr>balances_in = Balance True, balances_out = Balance False, accounts_now = []\<rparr>
     [\<lparr>index = 1, line_number = 1, date = (2020, 1, 10, 0),
       amount = Finite False 10 0,
       category = ''gift'', status = ''X'', kind = ''TR'', description = None, comment = []\<rparr>,
      \<lparr>index = 2, line_number = 2, date = (2020, 1, 15, 0),
       amount = Finite True 4250 (- 2),
       category = ''food'', status = ''P'', kind = ''CB'', description = None, comment = []\<rparr>,
      \<lparr>index = 3, line_number = 3, date = (2020, 1, 16, 0),
       amount = Finite True 750 (- 2),
       category = ''food'', status = ''P'', kind = ''CB'', description = None, comment = []\<rparr>]
   = Inr \<lparr>balances_in = \<lparr>reverse = True, entries = [(''gift'', Finite False 10 0)]\<rparr>,
          balances_out = \<lparr>reverse = False, entries = [(''food'', Finite True 5000 (- 2))]\<rparr>,
          accounts_now = []\<rparr> \<and>
   resultat \<lparr>balances_in = \<lparr>reverse = True, entries = [(''gift'', Finite False 10 0)]\<rparr>,
          balances_out = \<lparr>reverse = False, entries = [(''food'', Finite True 5000 (- 2))]\<rparr>,
          accounts_now = []\<rparr> = Inr (Finite True 4000 (- 2)) \<and>
   dec_val (Finite True 4000 (- 2)) = - 40"
proof -
  have h0: "exact_amounts 2 (map amount
     [\<lparr>index = 1, line_number = 1, date = (2020, 1, 10, 0),
       amount = Finite False 10 0,
       category = ''gift'', status = ''X'', kind = ''TR'', description = None, comment = []\<rparr>,
      \<lparr>index = 2, line_number = 2, date = (2020, 1, 15, 0),
       amount = Finite True 4250 (- 2),
       category = ''food'', status = ''P'', kind = ''CB'', description = None, comment = []\<rparr>,
      \<lparr>index = 3, line_number = 3, date = (2020, 1, 16, 0),
       amount = Finite True 750 (- 2),
       category = ''food'', status = ''P'', kind = ''CB'', description = None, comment = []\<rparr>])"
    by code_simp
  have h: "aggregate [] \<lparr>balances_in = Balance True, balances_out = Balance False, accounts_now = []\<rparr>
     [\<lparr>index = 1, line_number = 1, date = (2020, 1, 10, 0),
       amount = Finite False 10 0,
       category = ''gift'', status = ''X'', kind = ''TR'', description = None, comment = []\<rparr>,
      \<lparr>index = 2, line_number = 2, date = (2020, 1, 15, 0),
       amount = Finite True 4250 (- 2),
       category = ''food'', status = ''P'', kind = ''CB'', description = None, comment = []\<rparr>,
      \<lparr>index = 3, line_number = 3, date = (2020, 1, 16, 0),
       amount = Finite True 750 (- 2),
       category = ''food'', status = ''P'', kind = ''CB'', description = None, comment = []\<rparr>]
   = Inr \<lparr>balances_in = \<lparr>reverse = True, entries = [(''gift'', Finite False 10 0)]\<rparr>,
          balances_out = \<lparr>reverse = False, entries = [(''food'', Finite True 5000 (- 2))]\<rparr>,
          accounts_now = []\<rparr>"
    by code_simp
  have hr: "resultat \<lparr>balances_in = \<lparr>reverse = True, entries = [(''gift'', Finite False 10 0)]\<rparr>,
          balances_out = \<lparr>reverse = False, entries = [(''food'', Finite True 5000 (- 2))]\<rparr>,
          accounts_now = []\<rparr> = Inr (Finite True 4000 (- 2))"
    by code_simp
  from balance_sums [where accs = "[]" and ks = "[]", OF h0, THEN conjunct2, rule_format, OF h]
  obtain r where r: "resultat \<lparr>balances_in = \<lparr>reverse = True, entries = [(''gift'', Finite False 10 0)]\<rparr>,
          balances_out = \<lparr>reverse = False, entries = [(''food'', Finite True 5000 (- 2))]\<rparr>,
          accounts_now = []\<rparr> = Inr r"
    "dec_val r = sum_list (map (\<lambda>mv. dec_val (amount mv))
     [\<lparr>index = 1, line_number = 1, date = (2020, 1, 10, 0),
       amount = Finite False 10 0,
       category = ''gift'', status = ''X'', kind = ''TR'', description = None, comment = []\<rparr>,
      \<lparr>index = 2, line_number = 2, date = (2020, 1, 15, 0),
       amount = Finite True 4250 (- 2),
       category = ''food'', status = ''P'', kind = ''CB'', description = None, comment = []\<rparr>,
      \<lparr>index = 3, line_number = 3, date = (2020, 1, 16, 0),
       amount = Finite True 750 (- 2),
       category = ''food'', status = ''P'', kind = ''CB'', description = None, comment = []\<rparr>])"
    by (elim exE conjE)
  from r(1) hr have "r = Finite True 4000 (- 2)" by simp
  with r(2) have "dec_val (Finite True 4000 (- 2)) = sum_list (map (\<lambda>mv. dec_val (amount mv))
     [\<lparr>index = 1, line_number = 1, date = (2020, 1, 10, 0),
       amount = Finite False 10 0,
       category = ''gift'', status = ''X'', kind = ''TR'', description = None, comment = []\<rparr>,
      \<lparr>index = 2, line_number = 2, date = (2020, 1, 15, 0),
       amount = Finite True 4250 (- 2),
       category = ''food'', status = ''P'', kind = ''CB'', description = None, comment = []\<rparr>,
      \<lparr>index = 3, line_number = 3, date = (2020, 1, 16, 0),
       amount = Finite True 750 (- 2),
       category = ''food'', status = ''P'', kind = ''CB'', description = None, comment = []\<rparr>])"
    by simp
  also have "\<dots> = - 40"
    by code_simp
  finally have v: "dec_val (Finite True 4000 (- 2)) = - 40" .
  from h0 h hr v show ?thesis by (intro conjI)
qed


lemma str_nat_digits_eq:
  "10 ^ k \<le> n \<Longrightarrow> n < 10 ^ Suc k \<Longrightarrow> length (str_nat n) = Suc k"
proof (induction k arbitrary: n)
  case 0
  then show ?case by (simp add: str_nat.simps [of n])
next
  case (Suc k)
  from Suc.prems(1) have "10 * 10 ^ k \<le> n" by simp
  then have a: "10 ^ k \<le> n div 10" by simp
  from Suc.prems(2) have b: "n div 10 < 10 ^ Suc k"
    by (simp add: less_mult_imp_div_less mult.commute)
  have "(10::nat) \<le> 10 * 10 ^ k" by simp
  with \<open>10 * 10 ^ k \<le> n\<close> have "\<not> n < 10" by linarith
  with Suc.IH [OF a b] show ?case by (simp add: str_nat.simps [of n])
qed

lemma digits_of_sums:
  "length (str_nat 9999999999999999999999999999) = 28"
  "length (str_nat 99999999999999999999999999998) = 29"
  "length (str_nat 99999999999999999999999999994) = 29"
  "length (str_nat 10000000000000000000000000000) = 29"
  using str_nat_digits_eq [of 27 9999999999999999999999999999]
    str_nat_digits_eq [of 28 99999999999999999999999999998]
    str_nat_digits_eq [of 28 99999999999999999999999999994]
    str_nat_digits_eq [of 28 10000000000000000000000000000]
  by simp_all

text \<open>
  Three records with positive amounts, \<open>9999999999999999999999999999\<close> in one category and
  twice \<open>0.4\<close> in another. The income balance holds \<open>9999999999999999999999999999\<close> and
  \<open>0.8\<close>, and \<open>sum\<close> of these two values is rounded up to \<open>1.000000000000000000000000000E+28\<close>.
  The amounts add up to \<open>9999999999999999999999999999.8\<close>, and \<open>sum\<close> of the three amounts
  in the order of the records is \<open>9999999999999999999999999999\<close>: the sum of the values of
  the balance is neither.
\<close>

theorem balance_sums_counterexample:
  "map_sum id balances (MovesFile_init
     \<lparr>arg_s = None, arg_e = None, arg_p = False, arg_x = False, arg_g = None,
      arg_period = None\<rparr>
     (2026, 1, 1, 0)
     [''2020/01/10 9999999999999999999999999999'' @ [euro] @ '' TR salary X'' @ [NL],
      ''2020/01/11 0.4'' @ [euro] @ '' TR gift X'' @ [NL],
      ''2020/01/12 0.4'' @ [euro] @ '' TR gift X'' @ [NL],
      ''    from bob'' @ [NL]]) =
   Inr \<lparr>balances_in = \<lparr>reverse = True,
            entries = [(''salary'', Finite False 9999999999999999999999999999 0),
                       (''gift'', Finite False 8 (- 1))]\<rparr>,
        balances_out = \<lparr>reverse = False, entries = []\<rparr>,
        accounts_now = []\<rparr> \<and>
   py_sum [Finite False 9999999999999999999999999999 0, Finite False 8 (- 1)] =
     Inr (Finite False 1000000000000000000000000000 1) \<and>
   py_sum [Finite False 9999999999999999999999999999 0, Finite False 4 (- 1),
           Finite False 4 (- 1)] =
     Inr (Finite False 9999999999999999999999999999 0) \<and>
   dec_val (Finite False 1000000000000000000000000000 1) = 10000000000000000000000000000 \<and>
   dec_val (Finite False 9999999999999999999999999999 0) = 9999999999999999999999999999 \<and>
   sum_list (map dec_val [Finite False 9999999999999999999999999999 0, Finite False 4 (- 1),
           Finite False 4 (- 1)]) = 99999999999999999999999999998 / 10"
proof -
  have h1: "map_sum id balances (MovesFile_init
     \<lparr>arg_s = None, arg_e = None, arg_p = False, arg_x = False, arg_g = None,
      arg_period = None\<rparr>
     (2026, 1, 1, 0)
     [''2020/01/10 9999999999999999999999999999'' @ [euro] @ '' TR salary X'' @ [NL],
      ''2020/01/11 0.4'' @ [euro] @ '' TR gift X'' @ [NL],
      ''2020/01/12 0.4'' @ [euro] @ '' TR gift X'' @ [NL],
      ''    from bob'' @ [NL]]) =
   Inr \<lparr>balances_in = \<lparr>reverse = True,
            entries = [(''salary'', Finite False 9999999999999999999999999999 0),
                       (''gift'', Finite False 8 (- 1))]\<rparr>,
        balances_out = \<lparr>reverse = False, entries = []\<rparr>,
        accounts_now = []\<rparr>"
    by code_simp
  have h2: "py_sum [Finite False 9999999999999999999999999999 0, Finite False 8 (- 1)] =
     Inr (Finite False 1000000000000000000000000000 1)"
    by (simp add: py_sum_def dec_add_def check_nans_def with_sign_def dec_fix_def Let_def
        Etop_def Etiny_def prec_def digits_of_sums)
  have h3: "py_sum [Finite False 9999999999999999999999999999 0, Finite False 4 (- 1),
           Finite False 4 (- 1)] =
     Inr (Finite False 9999999999999999999999999999 0)"
    by (simp add: py_sum_def dec_add_def check_nans_def with_sign_def dec_fix_def Let_def
        Etop_def Etiny_def prec_def digits_of_sums)
  have h4: "dec_val (Finite False 1000000000000000000000000000 1) = 10000000000000000000000000000"
    by code_simp
  have h5: "dec_val (Finite False 9999999999999999999999999999 0) = 9999999999999999999999999999"
    by code_simp
  have h6: "sum_list (map dec_val [Finite False 9999999999999999999999999999 0, Finite False 4 (- 1),
           Finite False 4 (- 1)]) = 99999999999999999999999999998 / 10"
    by code_simp
  from h1 h2 h3 h4 h5 h6 show ?thesis by (intro conjI)
qed

section \<open>Unknown kinds\<close>













lemma unknown_kind_not_decimal: "\<not> decimal_error (unknown_kind k)"
  by (simp add: decimal_error_def unknown_kind_def)








section \<open>A period that is not found\<close>

lemma iterator_loop_no_marker:
  "\<forall>l\<in>set fd. \<not> startswith l p \<Longrightarrow> iterator_loop (PMarker p) i fd = Stop"
  by (induction fd arbitrary: i) auto

lemma parse_period_not_found:
  assumes "arg_period (args self) = Some p" and "p \<noteq> []"
    and "\<forall>l\<in>set fd. \<not> startswith l (''-- '' @ p)"
  shows "iterator (args self) fd = Stop" and "parse self reg fd = (Raise RuntimeError, reg)"
proof -
  from assms show i: "iterator (args self) fd = Stop"
    by (simp add: iterator_def iterator_loop_no_marker)
  then show "parse self reg fd = (Raise RuntimeError, reg)"
    by (simp add: parse_def)
qed

text \<open>
  Claim C1, on the code. With the period \<open>P1\<close> and an input whose only marker is that of
  another period, the iterator yields no line, as the claim says. The first \<open>next(fd)\<close> of
  \<open>parse\<close> then raises \<open>StopIteration\<close> inside the generator, which ends the run with
  \<open>RuntimeError\<close>: \<open>MovesFile.__init__\<close> does not return an empty list of records. The
  same input read with the period \<open>P2\<close> is parsed.
\<close>

theorem period_not_found_raises:
  "iterator
     \<lparr>arg_s = None, arg_e = None, arg_p = False, arg_x = False, arg_g = None,
      arg_period = Some ''P1''\<rparr>
     [''-- P2'' @ [NL],
      ''2020/01/15 -42.50'' @ [euro] @ '' CB food P'' @ [NL],
      ''    lunch'' @ [NL],
      ''!'' @ [NL]] = Stop \<and>
   MovesFile_init
     \<lparr>arg_s = None, arg_e = None, arg_p = False, arg_x = False, arg_g = None,
      arg_period = Some ''P1''\<rparr>
     (2026, 1, 1, 0)
     [''-- P2'' @ [NL],
      ''2020/01/15 -42.50'' @ [euro] @ '' CB food P'' @ [NL],
      ''    lunch'' @ [NL],
      ''!'' @ [NL]] = Inl RuntimeError \<and>
   map_sum id moves (MovesFile_init
     \<lparr>arg_s = None, arg_e = None, arg_p = False, arg_x = False, arg_g = None,
      arg_period = Some ''P2''\<rparr>
     (2026, 1, 1, 0)
     [''-- P2'' @ [NL],
      ''2020/01/15 -42.50'' @ [euro] @ '' CB food P'' @ [NL],
      ''    lunch'' @ [NL],
      ''!'' @ [NL]]) =
   Inr [\<lparr>index = 1, line_number = 2, date = (2020, 1, 15, 0),
         amount = (Finite True 4250 (- 2)),
         category = ''food'', status = ''P'', kind = ''CB'',
         description = Some ''lunch'', comment = []\<rparr>]"
  by code_simp

section \<open>The pattern of the filter\<close>

text \<open>
  Claim C6, on the code. The filter puts the text of the record in lower case and leaves
  the pattern as it is. The record of the line \<open>2020/01/15 -42.50\<euro> CB food P\<close> contains
  the pattern \<open>CB\<close>, letter for letter; under \<open>-g CB\<close> the parser does not yield it, and
  under \<open>-g cb\<close> it does.
\<close>

theorem grep_pattern_not_lowered:
  "contains (str_move
     \<lparr>index = 1, line_number = 1, date = (2020, 1, 15, 0),
      amount = (Finite True 4250 (- 2)),
      category = ''food'', status = ''P'', kind = ''CB'',
      description = Some ''lunch'', comment = []\<rparr>) ''CB'' \<and>
   \<not> filter_move
     \<lparr>args = \<lparr>arg_s = None, arg_e = None, arg_p = False, arg_x = False,
               arg_g = Some ''CB'', arg_period = None\<rparr>,
      start_date = (1900, 1, 1, 0), end_date = (2026, 1, 1, 0)\<rparr>
     \<lparr>index = 1, line_number = 1, date = (2020, 1, 15, 0),
      amount = (Finite True 4250 (- 2)),
      category = ''food'', status = ''P'', kind = ''CB'',
      description = Some ''lunch'', comment = []\<rparr> \<and>
   yielded (fst (parse
     \<lparr>args = \<lparr>arg_s = None, arg_e = None, arg_p = False, arg_x = False,
               arg_g = Some ''CB'', arg_period = None\<rparr>,
      start_date = (1900, 1, 1, 0), end_date = (2026, 1, 1, 0)\<rparr>
     \<lparr>accounts = [], kinds = []\<rparr>
     [''2020/01/15 -42.50'' @ [euro] @ '' CB food P'' @ [NL], ''    lunch'' @ [NL]])) = [] \<and>
   yielded (fst (parse
     \<lparr>args = \<lparr>arg_s = None, arg_e = None, arg_p = False, arg_x = False,
               arg_g = Some ''cb'', arg_period = None\<rparr>,
      start_date = (1900, 1, 1, 0), end_date = (2026, 1, 1, 0)\<rparr>
     \<lparr>accounts = [], kinds = []\<rparr>
     [''2020/01/15 -42.50'' @ [euro] @ '' CB food P'' @ [NL], ''    lunch'' @ [NL]])) =
   [\<lparr>index = 1, line_number = 1, date = (2020, 1, 15, 0),
     amount = (Finite True 4250 (- 2)),
     category = ''food'', status = ''P'', kind = ''CB'',
     description = Some ''lunch'', comment = []\<rparr>]"
  by code_simp

section \<open>Declaration lines\<close>

lemma split_ws_spaces: "list_all is_space ws \<Longrightarrow> split_ws ws = []"
proof -
  assume "list_all is_space ws"
  then have "dropWhile is_space ws = []" by (simp add: list_all_iff)
  then show ?thesis by (subst split_ws.simps) (simp only: list.case)
qed

lemma split_ws_skip: "is_space d \<Longrightarrow> split_ws (d # s) = split_ws s"
  by (simp add: split_ws.simps [of "d # s"] split_ws.simps [of s])

lemma takeWhile_word:
  "\<forall>c\<in>set w. \<not> is_space c \<Longrightarrow> is_space d \<Longrightarrow>
   takeWhile (\<lambda>x. \<not> is_space x) (w @ d # s) = w \<and>
   dropWhile (\<lambda>x. \<not> is_space x) (w @ d # s) = d # s"
  by (induction w) auto

lemma split_ws_word:
  assumes "w \<noteq> []" and "\<forall>c\<in>set w. \<not> is_space c" and "is_space d"
  shows "split_ws (w @ d # s) = w # split_ws s"
proof -
  from assms(1) obtain c w' where w: "w = c # w'" by (cases w) auto
  with assms(2) have c: "\<not> is_space c" and w': "\<forall>c\<in>set w'. \<not> is_space c" by auto
  from c have "dropWhile is_space (w @ d # s) = c # (w' @ d # s)" by (simp add: w)
  then have "split_ws (w @ d # s) =
      (c # takeWhile (\<lambda>x. \<not> is_space x) (w' @ d # s)) #
        split_ws (dropWhile (\<lambda>x. \<not> is_space x) (w' @ d # s))"
    by (subst split_ws.simps) (simp only: list.case)
  also have "\<dots> = w # split_ws (d # s)"
    using takeWhile_word [OF w' assms(3)] by (simp add: w)
  finally show ?thesis using assms(3) by (simp add: split_ws_skip)
qed

lemma split_ws_last:
  assumes "w \<noteq> []" and "\<forall>c\<in>set w. \<not> is_space c" and "list_all is_space ws"
  shows "split_ws (w @ ws) = [w]"
proof (cases ws)
  case Nil
  from assms(1) obtain c w' where w: "w = c # w'" by (cases w) auto
  with assms(2) have c: "\<not> is_space c" and w': "\<forall>c\<in>set w'. \<not> is_space c" by auto
  from w' have t: "takeWhile (\<lambda>x. \<not> is_space x) w' = w'"
    and d: "dropWhile (\<lambda>x. \<not> is_space x) w' = []"
    by simp_all
  from c have "dropWhile is_space (c # w') = c # w'" by simp
  then have "split_ws (c # w') = (c # takeWhile (\<lambda>x. \<not> is_space x) w') #
      split_ws (dropWhile (\<lambda>x. \<not> is_space x) w')"
    by (subst split_ws.simps) (simp only: list.case)
  also have "\<dots> = [c # w']"
    by (simp only: t d split_ws_spaces [of "[]", simplified])
  finally show ?thesis by (simp add: Nil w)
next
  case (Cons d s)
  with assms(3) have d: "is_space d" and s: "list_all is_space s" by simp_all
  from split_ws_word [OF assms(1,2) d, of s] split_ws_spaces [OF s] show ?thesis
    by (simp add: Cons)
qed

lemma split_on_field:
  "sep \<notin> set k \<Longrightarrow> split_on sep (k @ sep # s) = k # split_on sep s"
proof -
  assume n: "sep \<notin> set k"
  then have "takeWhile (\<lambda>c. c \<noteq> sep) (k @ sep # s) = k"
    and "dropWhile (\<lambda>c. c \<noteq> sep) (k @ sep # s) = sep # s"
    by (induction k) auto
  then show ?thesis by (subst split_on.simps) (simp only: list.case)
qed

lemma split_on_last: "sep \<notin> set k \<Longrightarrow> split_on sep k = [k]"
proof -
  assume n: "sep \<notin> set k"
  then have "takeWhile (\<lambda>c. c \<noteq> sep) k = k" and "dropWhile (\<lambda>c. c \<noteq> sep) k = []"
    by auto
  then show ?thesis by (subst split_on.simps) (simp only: list.case)
qed

lemma split_on_join:
  "ks \<noteq> [] \<Longrightarrow> \<forall>k\<in>set ks. CHR '','' \<notin> set k \<Longrightarrow> split_on (CHR '','') (join_commas ks) = ks"
proof (induction ks rule: join_commas.induct)
  case 1
  then show ?case by simp
next
  case (2 k)
  then show ?case by (simp add: split_on_last)
next
  case (3 k k' ks)
  then show ?case by (simp add: split_on_field)
qed

lemma slice_token: "slice_1_m2 (''('' @ body @ '')'' @ [t]) = body"
  by (simp add: slice_1_m2_def)

lemma not_space_punct:
  "\<not> is_space (CHR '','')" "\<not> is_space (CHR ''('')" "\<not> is_space (CHR '')'')"
  "\<not> is_space (CHR ''+'')" "is_space (CHR '' '')" "is_space NL"
  by (simp_all add: is_space_def)

lemma join_commas_no_space:
  "\<forall>k\<in>set ks. \<forall>c\<in>set k. \<not> is_space c \<Longrightarrow> \<forall>c\<in>set (join_commas ks). \<not> is_space c"
  by (induction ks rule: join_commas.induct) (auto simp add: not_space_punct)

lemma map_of_foldl_update:
  "map_of (foldl (\<lambda>ks k. AList.update k a ks) ks0 xs) k =
     (if k \<in> set xs then Some a else map_of ks0 k)"
  by (induction xs arbitrary: ks0) (auto simp add: update_conv')

lemma declaration_tokens:
  assumes "a \<noteq> []" and "\<forall>c\<in>set a. \<not> is_space c"
    and "\<forall>k\<in>set ks. \<forall>c\<in>set k. \<not> is_space c"
    and "\<not> is_space t"
    and "amt \<noteq> []" and "\<forall>c\<in>set amt. \<not> is_space c"
    and "list_all is_space ws"
  shows "split_ws (''++ '' @ a @ '' ('' @ join_commas ks @ '')'' @ [t] @ '' '' @ amt @ ws) =
         [''++'', a, ''('' @ join_commas ks @ '')'' @ [t], amt]"
proof -
  have sp: "is_space (CHR '' '')" by (rule not_space_punct)
  have p: "\<forall>c\<in>set ''++''. \<not> is_space c" by (simp add: not_space_punct)
  have tok: "\<forall>c\<in>set (''('' @ join_commas ks @ '')'' @ [t]). \<not> is_space c"
    using join_commas_no_space [OF assms(3)] assms(4) by (auto simp add: not_space_punct)
  have "split_ws (''++'' @ CHR '' '' # (a @ CHR '' '' #
          ((''('' @ join_commas ks @ '')'' @ [t]) @ CHR '' '' # (amt @ ws)))) =
        [''++'', a, ''('' @ join_commas ks @ '')'' @ [t], amt]"
    apply (subst split_ws_word [OF _ p sp])
     apply simp
    apply (subst split_ws_word [OF assms(1) assms(2) sp])
    apply (subst split_ws_word [OF _ tok sp])
     apply simp
    apply (subst split_ws_last [OF assms(5) assms(6) assms(7)])
    apply (rule refl)
    done
  then show ?thesis by simp
qed

text \<open>
  Claim C2, as the code has it. The code takes the second token of a declaration line
  without its first character and without its last two characters. So the kinds are all
  registered when the list in parentheses is followed by one more character, as in
  \<open>++ bank (CB,TR): 1000.00\<close>: for an account name, kinds and an amount without
  whitespace, kinds without comma, and an amount that \<open>Decimal\<close> accepts, the line
  \<open>++ account (kind1,...,kindn)t amount\<close> met at the head of the loop registers the
  account with the amount and maps every kind to the account.
\<close>

theorem declaration_registers:
  assumes "a \<noteq> []" and "\<forall>c\<in>set a. \<not> is_space c"
    and "ks \<noteq> []" and "\<forall>k\<in>set ks. \<forall>c\<in>set k. \<not> is_space c \<and> c \<noteq> CHR '',''"
    and "\<not> is_space t"
    and "amt \<noteq> []" and "\<forall>c\<in>set amt. \<not> is_space c"
    and "list_all is_space ws"
    and "Decimal amt = Inr d"
  shows "\<exists>reg'.
           account_declaration reg
             (''++ '' @ a @ '' ('' @ join_commas ks @ '')'' @ [t] @ '' '' @ amt @ ws) = Inr reg' \<and>
           map_of (accounts reg') a = Some d \<and>
           (\<forall>k\<in>set ks. map_of (kinds reg') k = Some a) \<and>
           parse_loop self reg m
             (i, ''++ '' @ a @ '' ('' @ join_commas ks @ '')'' @ [t] @ '' '' @ amt @ ws) Stop =
             (Stop, reg')"
proof -
  let ?line = "''++ '' @ a @ '' ('' @ join_commas ks @ '')'' @ [t] @ '' '' @ amt @ ws"
  let ?reg = "\<lparr>accounts = AList.update a d (accounts reg),
               kinds = foldl (\<lambda>ks kind'. AList.update kind' a ks) (kinds reg) ks\<rparr>"
  from assms(4) have sp: "\<forall>k\<in>set ks. \<forall>c\<in>set k. \<not> is_space c"
    and cm: "\<forall>k\<in>set ks. CHR '','' \<notin> set k" by auto
  have t: "split_ws ?line = [''++'', a, ''('' @ join_commas ks @ '')'' @ [t], amt]"
    using assms(1,2) sp assms(5,6,7,8) by (rule declaration_tokens)
  have k: "split_on (CHR '','') (slice_1_m2 (''('' @ join_commas ks @ '')'' @ [t])) = ks"
    by (simp only: slice_token split_on_join [OF assms(3) cm])
  have r: "account_declaration reg ?line = Inr ?reg"
    unfolding account_declaration_def
    by (simp only: t k assms(9) list.sel list.case sum.case)
  have s: "startswith ?line ''++ ''" by (simp add: startswith_def)
  have "parse_loop self reg m (i, ?line) Stop = (Stop, ?reg)"
    apply (subst parse_loop.simps)
    apply (simp only: s r if_True sum.case gen.case)
    done
  with r show ?thesis
    by (simp add: update_conv' map_of_foldl_update)
qed

theorem declaration_registers_witness:
  "Decimal ''1000.00'' = Inr (Finite False 100000 (- 2)) \<and>
   (\<exists>reg'.
      account_declaration \<lparr>accounts = [], kinds = []\<rparr> (''++ bank (CB,TR): 1000.00'' @ [NL]) = Inr reg' \<and>
      map_of (accounts reg') ''bank'' = Some (Finite False 100000 (- 2)) \<and>
      map_of (kinds reg') ''CB'' = Some ''bank'' \<and>
      map_of (kinds reg') ''TR'' = Some ''bank'')"
proof -
  have d: "Decimal ''1000.00'' = Inr (Finite False 100000 (- 2))"
    by code_simp
  have n: "\<not> is_space (CHR '':'')" "list_all is_space [NL]"
    "\<forall>c\<in>set ''bank''. \<not> is_space c" "\<forall>c\<in>set ''1000.00''. \<not> is_space c"
    "\<forall>k\<in>set [''CB'', ''TR'']. \<forall>c\<in>set k. \<not> is_space c \<and> c \<noteq> CHR '',''"
    by (simp_all add: is_space_def)
  from declaration_registers [of "''bank''" "[''CB'', ''TR'']" "CHR '':''" "''1000.00''" "[NL]"
      "(Finite False 100000 (- 2))" "\<lparr>accounts = [], kinds = []\<rparr>"
      "\<lparr>args = \<lparr>arg_s = None, arg_e = None, arg_p = False, arg_x = False,
               arg_g = None, arg_period = None\<rparr>,
      start_date = (1900, 1, 1, 0), end_date = (2026, 1, 1, 0)\<rparr>" 0 1, OF _ n(3) _ n(5) n(1) _ n(4) n(2) d]
  have "\<exists>reg'.
      account_declaration \<lparr>accounts = [], kinds = []\<rparr> (''++ bank (CB,TR): 1000.00'' @ [NL]) = Inr reg' \<and>
      map_of (accounts reg') ''bank'' = Some (Finite False 100000 (- 2)) \<and>
      map_of (kinds reg') ''CB'' = Some ''bank'' \<and>
      map_of (kinds reg') ''TR'' = Some ''bank''"
    by auto
  with d show ?thesis by (rule conjI)
qed

text \<open>
  The line of the claim, \<open>++ bank (CB,TR) 1000.00\<close>, where nothing follows the closing
  parenthesis: the last kind loses its last letter, and \<open>TR\<close> is not mapped.
\<close>

theorem declaration_counterexample:
  "parse
     \<lparr>args = \<lparr>arg_s = None, arg_e = None, arg_p = False, arg_x = False,
               arg_g = None, arg_period = None\<rparr>,
      start_date = (1900, 1, 1, 0), end_date = (2026, 1, 1, 0)\<rparr>
     \<lparr>accounts = [], kinds = []\<rparr>
     [''++ bank (CB,TR) 1000.00'' @ [NL]] =
   (Stop, \<lparr>accounts = [(''bank'', (Finite False 100000 (- 2)))],
           kinds = [(''CB'', ''bank''), (''T'', ''bank'')]\<rparr>) \<and>
   map_of [(''CB'', ''bank''), (''T'', ''bank'')] ''TR'' = None"
  by code_simp

section \<open>A declaration inside a record\<close>









end
